theory Spec2Isabelle
  imports Complex_Main "HOL-Library.Sublist"
begin

section \<open>Data model (shared types of the gateway)\<close>

text \<open>
  The shared interfaces \<^verbatim>\<open>Channel\<close>, \<^verbatim>\<open>ApiKey\<close>, \<^verbatim>\<open>Token\<close> and \<^verbatim>\<open>RequestLog\<close>
  become records, the string-literal unions become datatypes. Identifiers are strings,
  timestamps and counters are integers (millisecond Unix time, request counts); an optional
  field \<^verbatim>\<open>f?: T\<close> is a field of type \<open>T option\<close>, \<open>None\<close> standing for \<^verbatim>\<open>undefined\<close>.
  Field names that several interfaces share (\<^verbatim>\<open>id\<close>, \<^verbatim>\<open>name\<close>, \<^verbatim>\<open>enabled\<close>,
  \<^verbatim>\<open>createdAt\<close>, \<^verbatim>\<open>status\<close>, ...) carry a one-letter prefix of their interface.
\<close>

datatype ChannelType = OpenAI | Anthropic | Gemini | OpenAICompatible

datatype TestMethod = Balance | Chat | Models

datatype LoadBalanceStrategy = RoundRobin | Weighted | Priority | LeastUsed

datatype ApiKeyStatus = Active | Invalid | QuotaExceeded | Disabled | Unknown

record Channel =
  cId :: string
  cName :: string
  cType :: ChannelType
  baseUrl :: string
  testMethod :: TestMethod
  testModel :: "string option"
  proxyId :: "string option"
  loadBalanceStrategy :: LoadBalanceStrategy
  cEnabled :: bool
  cCreatedAt :: int
  cUpdatedAt :: int

record ApiKey =
  kId :: string
  channelId :: string
  key :: string
  kAlias :: "string option"
  status :: ApiKeyStatus
  priority :: int
  weight :: int
  balance :: "real option"
  lastChecked :: "int option"
  lastUsed :: "int option"
  errorCount :: int
  totalRequests :: int
  kCreatedAt :: int
  kUpdatedAt :: int

record Token =
  tId :: string
  tName :: string
  token :: string
  allowedChannels :: "string list"
  rateLimit :: "int option"
  tEnabled :: bool
  tCreatedAt :: int
  tLastUsed :: "int option"

record RequestLog =
  lId :: string
  timestamp :: int
  tokenId :: "string option"
  lChannelId :: string
  keyId :: string
  model :: string
  path :: string
  lMethod :: string
  lStatus :: int
  latency :: int
  inputTokens :: "int option"
  outputTokens :: "int option"
  lError :: "string option"
  streaming :: bool

record Settings =
  checkInterval :: int
  maxLogsRetention :: int

text \<open>
  The persisted document \<^verbatim>\<open>Database\<close> of \<^verbatim>\<open>db/index.ts\<close>. Proxies play no part in the
  properties below and are kept as their identifiers only.
\<close>

record Database =
  channels :: "Channel list"
  apiKeys :: "ApiKey list"
  proxies :: "string list"
  tokens :: "Token list"
  logs :: "RequestLog list"
  settings :: Settings

section \<open>Array helpers\<close>

text \<open>
  \<^verbatim>\<open>Array.prototype.findIndex\<close>: the index of the first element satisfying the predicate,
  \<open>None\<close> for the source's \<^verbatim>\<open>-1\<close>.
\<close>

fun findIndex :: "('a \<Rightarrow> bool) \<Rightarrow> 'a list \<Rightarrow> nat option" where
  "findIndex P [] = None"
| "findIndex P (x # xs) =
     (if P x then Some 0 else map_option Suc (findIndex P xs))"

text \<open>\<^verbatim>\<open>xs.splice(i, 1)\<close>: the array without the element at index \<open>i\<close>.\<close>

definition splice1 :: "nat \<Rightarrow> 'a list \<Rightarrow> 'a list" where
  "splice1 i xs = take i xs @ drop (Suc i) xs"

text \<open>
  An array read \<^verbatim>\<open>xs[i]\<close>: \<^verbatim>\<open>undefined\<close> (here \<open>None\<close>) outside the array.
\<close>

definition elemAt :: "'a list \<Rightarrow> nat \<Rightarrow> 'a option" where
  "elemAt xs i = (if i < length xs then Some (xs ! i) else None)"

section \<open>Store (\<^verbatim>\<open>db/index.ts\<close>)\<close>

text \<open>
  Every mutation of the store is one function from the document to the new document (and
  the operation's result); the clock read \<^verbatim>\<open>Date.now()\<close> is the parameter \<open>now\<close>.
\<close>

definition getChannels :: "Database \<Rightarrow> Channel list" where
  "getChannels db = channels db"

definition getChannelById :: "string \<Rightarrow> Database \<Rightarrow> Channel option" where
  "getChannelById i db = find (\<lambda>c. cId c = i) (channels db)"

definition deleteChannel :: "string \<Rightarrow> Database \<Rightarrow> bool \<times> Database" where
  "deleteChannel i db =
     (case findIndex (\<lambda>c. cId c = i) (channels db) of
        None \<Rightarrow> (False, db)
      | Some index \<Rightarrow>
          (True, db\<lparr>channels := splice1 index (channels db),
                    apiKeys := filter (\<lambda>k. channelId k \<noteq> i) (apiKeys db)\<rparr>))"

definition getApiKeys :: "Database \<Rightarrow> ApiKey list" where
  "getApiKeys db = apiKeys db"

definition getApiKeyById :: "string \<Rightarrow> Database \<Rightarrow> ApiKey option" where
  "getApiKeyById i db = find (\<lambda>k. kId k = i) (apiKeys db)"

definition getActiveKeysByChannel :: "string \<Rightarrow> Database \<Rightarrow> ApiKey list" where
  "getActiveKeysByChannel c db =
     filter (\<lambda>k. channelId k = c \<and> status k = Active) (apiKeys db)"


text \<open>
  \<^verbatim>\<open>Partial<ApiKey>\<close>, the argument of \<open>updateApiKey\<close>: each property is absent
  (\<open>None\<close>) or present with a value. An optional field of \<^verbatim>\<open>ApiKey\<close> can be present
  with the value \<^verbatim>\<open>undefined\<close>, which is \<open>Some None\<close> here: the object spread copies such
  a property like any other.
\<close>

record ApiKeyPatch =
  pId :: "string option"
  pChannelId :: "string option"
  pKey :: "string option"
  pAlias :: "string option option"
  pStatus :: "ApiKeyStatus option"
  pPriority :: "int option"
  pWeight :: "int option"
  pBalance :: "real option option"
  pLastChecked :: "int option option"
  pLastUsed :: "int option option"
  pErrorCount :: "int option"
  pTotalRequests :: "int option"
  pCreatedAt :: "int option"
  pUpdatedAt :: "int option"

definition noUpdates :: ApiKeyPatch where
  "noUpdates = \<lparr>pId = None, pChannelId = None, pKey = None, pAlias = None, pStatus = None,
     pPriority = None, pWeight = None, pBalance = None, pLastChecked = None,
     pLastUsed = None, pErrorCount = None, pTotalRequests = None, pCreatedAt = None,
     pUpdatedAt = None\<rparr>"

text \<open>One property of the spread \<^verbatim>\<open>{ ...old, ...updates }\<close>.\<close>

definition spread :: "'a \<Rightarrow> 'a option \<Rightarrow> 'a" where
  "spread old upd = (case upd of None \<Rightarrow> old | Some v \<Rightarrow> v)"

text \<open>\<^verbatim>\<open>{ ...k, ...updates, updatedAt: Date.now() }\<close>\<close>

definition applyUpdates :: "ApiKey \<Rightarrow> ApiKeyPatch \<Rightarrow> int \<Rightarrow> ApiKey" where
  "applyUpdates k u now =
     \<lparr>kId = spread (kId k) (pId u),
      channelId = spread (channelId k) (pChannelId u),
      key = spread (key k) (pKey u),
      kAlias = spread (kAlias k) (pAlias u),
      status = spread (status k) (pStatus u),
      priority = spread (priority k) (pPriority u),
      weight = spread (weight k) (pWeight u),
      balance = spread (balance k) (pBalance u),
      lastChecked = spread (lastChecked k) (pLastChecked u),
      lastUsed = spread (lastUsed k) (pLastUsed u),
      errorCount = spread (errorCount k) (pErrorCount u),
      totalRequests = spread (totalRequests k) (pTotalRequests u),
      kCreatedAt = spread (kCreatedAt k) (pCreatedAt u),
      kUpdatedAt = now\<rparr>"

definition updateApiKey ::
  "string \<Rightarrow> ApiKeyPatch \<Rightarrow> int \<Rightarrow> Database \<Rightarrow> ApiKey option \<times> Database" where
  "updateApiKey i updates now db =
     (case findIndex (\<lambda>k. kId k = i) (apiKeys db) of
        None \<Rightarrow> (None, db)
      | Some index \<Rightarrow>
          (let k = applyUpdates (apiKeys db ! index) updates now
           in (Some k, db\<lparr>apiKeys := (apiKeys db)[index := k]\<rparr>)))"

definition createApiKey :: "ApiKey \<Rightarrow> Database \<Rightarrow> Database" where
  "createApiKey k db = db\<lparr>apiKeys := apiKeys db @ [k]\<rparr>"

definition deleteApiKey :: "string \<Rightarrow> Database \<Rightarrow> bool \<times> Database" where
  "deleteApiKey i db =
     (case findIndex (\<lambda>k. kId k = i) (apiKeys db) of
        None \<Rightarrow> (False, db)
      | Some index \<Rightarrow> (True, db\<lparr>apiKeys := splice1 index (apiKeys db)\<rparr>))"

text \<open>
  \<open>addLog\<close>: the append and the clean-up of old logs are one mutation. The retention read
  \<^verbatim>\<open>settings.maxLogsRetention || 604800000\<close> falls back to seven days when the setting is 0.
\<close>

definition addLog :: "RequestLog \<Rightarrow> int \<Rightarrow> Database \<Rightarrow> Database" where
  "addLog entry now db =
     (let pushed = logs db @ [entry];
          maxRetention = (if maxLogsRetention (settings db) = 0 then 604800000
                          else maxLogsRetention (settings db));
          cutoff = now - maxRetention
      in db\<lparr>logs := filter (\<lambda>l. timestamp l > cutoff) pushed\<rparr>)"

definition getLogsForStats :: "int \<Rightarrow> Database \<Rightarrow> RequestLog list" where
  "getLogsForStats since db = filter (\<lambda>l. timestamp l \<ge> since) (logs db)"

text \<open>
  A handler gives up control at every \<^verbatim>\<open>await\<close>, and the store operations of other
  handlers (relays, probes, the management routes) are committed there, each as a whole.
  What is committed during one \<^verbatim>\<open>await\<close> is a list of such operations, in their order:
  key updates, key creations, key deletions and log appends. All of them change the
  stored key array in place.
\<close>

datatype storeOp =
  OpUpdateKey string ApiKeyPatch int
| OpCreateKey ApiKey
| OpDeleteKey string
| OpAddLog RequestLog int

fun commit :: "storeOp list \<Rightarrow> Database \<Rightarrow> Database" where
  "commit [] db = db"
| "commit (OpUpdateKey i updates now # ops) db = commit ops (snd (updateApiKey i updates now db))"
| "commit (OpCreateKey k # ops) db = commit ops (createApiKey k db)"
| "commit (OpDeleteKey i # ops) db = commit ops (snd (deleteApiKey i db))"
| "commit (OpAddLog entry now # ops) db = commit ops (addLog entry now db)"

section \<open>Load balancer (\<^verbatim>\<open>services/loadBalancer.ts\<close>)\<close>

text \<open>
  The module-level map \<^verbatim>\<open>roundRobinIndex\<close> is passed in and returned. The draw of
  \<^verbatim>\<open>Math.random()\<close> is the parameter \<open>r\<close>, a real number that the runtime promises to
  lie in \<open>[0, 1)\<close>; \<open>weightedSelect\<close> draws once on either of its paths. The private
  selection functions return \<open>None\<close> where the source would read outside an array
  (\<^verbatim>\<open>undefined\<close>, or the \<^verbatim>\<open>TypeError\<close> of \<^verbatim>\<open>sorted[0].priority\<close>); \<open>selectKey\<close> only
  calls them on a non-empty array.
\<close>

type_synonym roundRobinIndex = "string \<rightharpoonup> nat"

definition roundRobinSelect ::
  "ApiKey list \<Rightarrow> string \<Rightarrow> roundRobinIndex \<Rightarrow> ApiKey option \<times> roundRobinIndex" where
  "roundRobinSelect keys c rr =
     (let currentIndex = (case rr c of None \<Rightarrow> 0 | Some n \<Rightarrow> n)
      in (elemAt keys (currentIndex mod length keys),
          rr(c \<mapsto> (currentIndex + 1) mod length keys)))"

text \<open>The \<^verbatim>\<open>for\<close> loop of \<open>weightedSelect\<close>; \<open>None\<close> when it runs to the end.\<close>

fun weightedScan :: "ApiKey list \<Rightarrow> real \<Rightarrow> ApiKey option" where
  "weightedScan [] random = None"
| "weightedScan (k # ks) random =
     (let random' = random - real_of_int (weight k)
      in if random' \<le> 0 then Some k else weightedScan ks random')"

definition weightedSelect :: "ApiKey list \<Rightarrow> real \<Rightarrow> ApiKey option" where
  "weightedSelect keys r =
     (let totalWeight = foldl (\<lambda>sum k. sum + weight k) 0 keys
      in if totalWeight = 0 then
           (let i = \<lfloor>r * real (length keys)\<rfloor>
            in if 0 \<le> i then elemAt keys (nat i) else None)
         else
           (case weightedScan keys (r * real_of_int totalWeight) of
              Some k \<Rightarrow> Some k
            | None \<Rightarrow> elemAt keys (length keys - 1)))"

text \<open>
  \<^verbatim>\<open>[...keys].sort((a, b) => b.priority - a.priority)\<close>: the sort of the language is
  stable, and the comparator orders by descending priority, which is the stable
  \<open>sort_key\<close> on the negated priority. The \<^verbatim>\<open>reduce\<close> starts from \<^verbatim>\<open>topKeys[0]\<close> and
  visits every element of \<^verbatim>\<open>topKeys\<close>.
\<close>

definition prioritySelect :: "ApiKey list \<Rightarrow> ApiKey option" where
  "prioritySelect keys =
     (let sorted = sort_key (\<lambda>k. - priority k) keys
      in case sorted of
           [] \<Rightarrow> None
         | s0 # _ \<Rightarrow>
             (let highestPriority = priority s0;
                  topKeys = filter (\<lambda>k. priority k = highestPriority) sorted
              in case topKeys of
                   [] \<Rightarrow> None
                 | t0 # _ \<Rightarrow>
                     Some (foldl (\<lambda>best k. if errorCount k < errorCount best then k else best)
                             t0 topKeys)))"

definition leastUsedSelect :: "ApiKey list \<Rightarrow> ApiKey option" where
  "leastUsedSelect keys =
     (case keys of
        [] \<Rightarrow> None
      | k0 # _ \<Rightarrow>
          Some (foldl (\<lambda>least k. if totalRequests k < totalRequests least then k else least)
                  k0 keys))"

text \<open>
  The result of \<open>selectKey\<close>: \<^verbatim>\<open>null\<close>, a key, or the \<^verbatim>\<open>undefined\<close> that an out-of-range
  array read of a selection function would hand back.
\<close>

datatype selection = Null | Undefined | Selected ApiKey

definition fromRead :: "ApiKey option \<Rightarrow> selection" where
  "fromRead x = (case x of None \<Rightarrow> Undefined | Some k \<Rightarrow> Selected k)"

definition selectKey ::
  "ApiKey list \<Rightarrow> LoadBalanceStrategy \<Rightarrow> string \<Rightarrow> roundRobinIndex \<Rightarrow> real
     \<Rightarrow> selection \<times> roundRobinIndex" where
  "selectKey keys strategy c rr r =
     (let activeKeys = filter (\<lambda>k. status k = Active) keys
      in if length activeKeys = 0 then (Null, rr)
         else (case strategy of
                 RoundRobin \<Rightarrow>
                   (case roundRobinSelect activeKeys c rr of (k, rr') \<Rightarrow> (fromRead k, rr'))
               | Weighted \<Rightarrow> (fromRead (weightedSelect activeKeys r), rr)
               | Priority \<Rightarrow> (fromRead (prioritySelect activeKeys), rr)
               | LeastUsed \<Rightarrow> (fromRead (leastUsedSelect activeKeys), rr)))"

section \<open>Rate limiting (\<^verbatim>\<open>middleware/index.ts\<close>) and token creation\<close>

text \<open>
  The outcome of a middleware: \<^verbatim>\<open>next()\<close>, or a reply with a status and the body
  \<^verbatim>\<open>{error: {message, type}}\<close>. The module-level map \<^verbatim>\<open>requestCounts\<close> holds, per token
  id, the \<^verbatim>\<open>count\<close> and \<^verbatim>\<open>resetAt\<close> of the running window; it is passed in and returned.
  The test \<^verbatim>\<open>!token.rateLimit\<close> holds for an absent limit and for the limit 0.
\<close>

datatype errorBody = ErrorBody string string

datatype middlewareResult = Next | Reply nat errorBody

type_synonym requestCounts = "string \<rightharpoonup> (int \<times> int)"

definition windowMs :: int where
  "windowMs = 60000"

definition rateLimitMiddleware ::
  "Token option \<Rightarrow> int \<Rightarrow> requestCounts \<Rightarrow> middlewareResult \<times> requestCounts" where
  "rateLimitMiddleware tokenInfo now rc =
     (case tokenInfo of
        None \<Rightarrow> (Next, rc)
      | Some tok \<Rightarrow>
          (case rateLimit tok of
             None \<Rightarrow> (Next, rc)
           | Some limit \<Rightarrow>
               if limit = 0 then (Next, rc)
               else
                 (let record0 = (case rc (tId tok) of
                                   None \<Rightarrow> (0, now + windowMs)
                                 | Some (cnt, resetAt) \<Rightarrow>
                                     if now \<ge> resetAt then (0, now + windowMs)
                                     else (cnt, resetAt));
                      record1 = (fst record0 + 1, snd record0);
                      rc' = rc(tId tok \<mapsto> record1)
                  in if fst record1 > limit
                     then (Reply 429 (ErrorBody ''Rate limit exceeded'' ''rate_limit_error''), rc')
                     else (Next, rc'))))"

text \<open>Successive requests of one token, at the given clock readings, in order.\<close>

fun rateLimitRun ::
  "Token \<Rightarrow> int list \<Rightarrow> requestCounts \<Rightarrow> middlewareResult list \<times> requestCounts" where
  "rateLimitRun tok [] rc = ([], rc)"
| "rateLimitRun tok (now # nows) rc =
     (case rateLimitMiddleware (Some tok) now rc of
        (res, rc') \<Rightarrow>
          (case rateLimitRun tok nows rc' of (ress, rc'') \<Rightarrow> (res # ress, rc'')))"

text \<open>
  The body of \<^verbatim>\<open>POST /api/tokens\<close> and its validator \<^verbatim>\<open>createTokenSchema\<close>
  (\<^verbatim>\<open>routes/channels.ts\<close>); the integrality demanded by \<^verbatim>\<open>.int()\<close> is carried by the type.
\<close>

record CreateTokenRequest =
  rName :: string
  rAllowedChannels :: "string list option"
  rRateLimit :: "int option"
  rEnabled :: "bool option"

definition createTokenSchema :: "CreateTokenRequest \<Rightarrow> bool" where
  "createTokenSchema data =
     (1 \<le> length (rName data) \<and> length (rName data) \<le> 100
      \<and> (case rRateLimit data of None \<Rightarrow> True | Some n \<Rightarrow> 0 \<le> n))"

text \<open>The token that the route stores; \<open>newId\<close> and \<open>tokenValue\<close> are the random parts.\<close>

definition newToken :: "CreateTokenRequest \<Rightarrow> string \<Rightarrow> string \<Rightarrow> int \<Rightarrow> Token" where
  "newToken data newId tokenValue now =
     \<lparr>tId = newId, tName = rName data, token = tokenValue,
      allowedChannels = (case rAllowedChannels data of None \<Rightarrow> [] | Some cs \<Rightarrow> cs),
      rateLimit = rRateLimit data,
      tEnabled = (case rEnabled data of None \<Rightarrow> True | Some b \<Rightarrow> b),
      tCreatedAt = now, tLastUsed = None\<rparr>"

section \<open>Key checker (\<^verbatim>\<open>services/keyChecker.ts\<close>)\<close>

text \<open>
  A probe performs one \<^verbatim>\<open>fetch\<close>. The network is the parameter \<open>fetch\<close>, from the request
  to what the promise settles with: a rejection carrying the thrown value, or a response.
  Of a response the checker reads the status, the text of the body (\<^verbatim>\<open>res.text()\<close>, which
  can itself throw) and, on the balance path, \<^verbatim>\<open>(await res.json()).total_available\<close>,
  which throws when the body is not JSON (or is \<^verbatim>\<open>null\<close>) and is absent when the parsed
  value has no such property. The proxy agent and the 30 s abort signal only decide how
  the promise settles and are part of \<open>fetch\<close>. Clock reads are the parameter \<open>now\<close>.
\<close>

datatype thrown = ErrorObject string | OtherValue

datatype HttpMethod = GET | POST

datatype ProbeBody = ChatProbe string | GeminiProbe

record FetchRequest =
  url :: string
  fMethod :: HttpMethod
  fHeaders :: "(string \<times> string) list"
  fBody :: "ProbeBody option"

record HttpResponse =
  hStatus :: nat
  hText :: "thrown + string"
  hTotalAvailable :: "thrown + real option"

datatype fetchOutcome = Rejected thrown | Resolved HttpResponse

record KeyCheckResult =
  rcKeyId :: string
  rcStatus :: ApiKeyStatus
  rcBalance :: "real option"
  rcError :: "string option"
  checkedAt :: int

text \<open>\<^verbatim>\<open>res.ok\<close>\<close>

definition ok :: "nat \<Rightarrow> bool" where
  "ok code = (200 \<le> code \<and> code \<le> 299)"

text \<open>The decimal numeral that a template string prints for a status code.\<close>

definition digit :: "nat \<Rightarrow> char" where
  "digit d = ''0123456789'' ! d"

fun decimal :: "nat \<Rightarrow> string" where
  "decimal n =
     (if n < 10 then [digit n]
      else decimal (n div 10) @ [digit (n mod 10)])"

declare decimal.simps [simp del]

text \<open>\<^verbatim>\<open>baseUrl.replace(/\/+$/, '')\<close>\<close>

definition stripTrailingSlashes :: "string \<Rightarrow> string" where
  "stripTrailingSlashes u = rev (dropWhile (\<lambda>c. c = CHR ''/'') (rev u))"

text \<open>\<^verbatim>\<open>channel.testModel || dflt\<close>: the default also replaces the empty string.\<close>

definition testModelOr :: "Channel \<Rightarrow> string \<Rightarrow> string" where
  "testModelOr channel dflt =
     (case testModel channel of None \<Rightarrow> dflt | Some m \<Rightarrow> if m = [] then dflt else m)"

definition activeResult :: "string \<Rightarrow> real option \<Rightarrow> int \<Rightarrow> KeyCheckResult" where
  "activeResult kid bal now =
     \<lparr>rcKeyId = kid, rcStatus = Active, rcBalance = bal, rcError = None, checkedAt = now\<rparr>"

text \<open>The \<^verbatim>\<open>catch\<close> block shared by the three provider checks.\<close>

definition caught :: "string \<Rightarrow> thrown \<Rightarrow> int \<Rightarrow> KeyCheckResult" where
  "caught kid e now =
     \<lparr>rcKeyId = kid, rcStatus = Invalid, rcBalance = None,
      rcError = Some (case e of ErrorObject m \<Rightarrow> m | OtherValue \<Rightarrow> ''Connection failed''),
      checkedAt = now\<rparr>"

definition handleErrorResponse :: "string \<Rightarrow> HttpResponse \<Rightarrow> int \<Rightarrow> KeyCheckResult" where
  "handleErrorResponse kid res now =
     (let errorMsg0 = ''HTTP '' @ decimal (hStatus res);
          errorMsg = (case hText res of
                        Inr body \<Rightarrow> errorMsg0 @ '': '' @ take 200 body
                      | Inl _ \<Rightarrow> errorMsg0);
          st = (if hStatus res = 401 \<or> hStatus res = 403 then Invalid
                else if hStatus res = 429 then QuotaExceeded
                else Invalid)
      in \<lparr>rcKeyId = kid, rcStatus = st, rcBalance = None, rcError = Some errorMsg,
          checkedAt = now\<rparr>)"

text \<open>The shape shared by all probes but the balance probe.\<close>

definition plainProbe ::
  "(FetchRequest \<Rightarrow> fetchOutcome) \<Rightarrow> FetchRequest \<Rightarrow> string \<Rightarrow> int \<Rightarrow> KeyCheckResult" where
  "plainProbe fetch req kid now =
     (case fetch req of
        Rejected e \<Rightarrow> caught kid e now
      | Resolved res \<Rightarrow>
          if ok (hStatus res) then activeResult kid None now
          else handleErrorResponse kid res now)"

definition checkOpenAI ::
  "(FetchRequest \<Rightarrow> fetchOutcome) \<Rightarrow> Channel \<Rightarrow> ApiKey \<Rightarrow> int \<Rightarrow> KeyCheckResult" where
  "checkOpenAI fetch channel k now =
     (let base = stripTrailingSlashes (baseUrl channel);
          headers = [(''Authorization'', ''Bearer '' @ key k),
                     (''Content-Type'', ''application/json'')]
      in if testMethod channel = Models then
           plainProbe fetch
             \<lparr>url = base @ ''/v1/models'', fMethod = GET, fHeaders = headers, fBody = None\<rparr>
             (kId k) now
         else if testMethod channel = Balance then
           (case fetch \<lparr>url = base @ ''/dashboard/billing/credit_grants'', fMethod = GET,
                         fHeaders = headers, fBody = None\<rparr> of
              Rejected e \<Rightarrow> caught (kId k) e now
            | Resolved res \<Rightarrow>
                if ok (hStatus res) then
                  (case hTotalAvailable res of
                     Inl e \<Rightarrow> caught (kId k) e now
                   | Inr bal \<Rightarrow> activeResult (kId k) bal now)
                else handleErrorResponse (kId k) res now)
         else
           plainProbe fetch
             \<lparr>url = base @ ''/v1/chat/completions'', fMethod = POST, fHeaders = headers,
              fBody = Some (ChatProbe (testModelOr channel ''gpt-3.5-turbo''))\<rparr>
             (kId k) now)"

definition checkAnthropic ::
  "(FetchRequest \<Rightarrow> fetchOutcome) \<Rightarrow> Channel \<Rightarrow> ApiKey \<Rightarrow> int \<Rightarrow> KeyCheckResult" where
  "checkAnthropic fetch channel k now =
     (let base = stripTrailingSlashes (baseUrl channel);
          headers = [(''x-api-key'', key k),
                     (''Content-Type'', ''application/json''),
                     (''anthropic-version'', ''2023-06-01'')]
      in if testMethod channel = Models then
           plainProbe fetch
             \<lparr>url = base @ ''/v1/models'', fMethod = GET, fHeaders = headers, fBody = None\<rparr>
             (kId k) now
         else
           plainProbe fetch
             \<lparr>url = base @ ''/v1/messages'', fMethod = POST, fHeaders = headers,
              fBody = Some (ChatProbe (testModelOr channel ''claude-3-haiku-20240307''))\<rparr>
             (kId k) now)"

definition checkGemini ::
  "(FetchRequest \<Rightarrow> fetchOutcome) \<Rightarrow> Channel \<Rightarrow> ApiKey \<Rightarrow> int \<Rightarrow> KeyCheckResult" where
  "checkGemini fetch channel k now =
     (let base = stripTrailingSlashes (baseUrl channel)
      in if testMethod channel = Models then
           plainProbe fetch
             \<lparr>url = base @ ''/v1beta/models?key='' @ key k, fMethod = GET, fHeaders = [],
              fBody = None\<rparr>
             (kId k) now
         else
           plainProbe fetch
             \<lparr>url = base @ ''/v1beta/models/'' @ testModelOr channel ''gemini-pro''
                     @ '':generateContent?key='' @ key k,
              fMethod = POST, fHeaders = [(''Content-Type'', ''application/json'')],
              fBody = Some GeminiProbe\<rparr>
             (kId k) now)"

definition checkKey ::
  "(FetchRequest \<Rightarrow> fetchOutcome) \<Rightarrow> Channel \<Rightarrow> ApiKey \<Rightarrow> int \<Rightarrow> KeyCheckResult" where
  "checkKey fetch channel k now =
     (case cType channel of
        Anthropic \<Rightarrow> checkAnthropic fetch channel k now
      | Gemini \<Rightarrow> checkGemini fetch channel k now
      | OpenAI \<Rightarrow> checkOpenAI fetch channel k now
      | OpenAICompatible \<Rightarrow> checkOpenAI fetch channel k now)"

text \<open>A network that settles every request of the probe in the same way.\<close>

definition upstreamAnswers :: "fetchOutcome \<Rightarrow> FetchRequest \<Rightarrow> fetchOutcome" where
  "upstreamAnswers out req = out"

text \<open>
  The one probe that reads more than the status of a 2xx answer: the balance probe of the
  OpenAI dialect.
\<close>

definition balanceProbe :: "Channel \<Rightarrow> bool" where
  "balanceProbe channel =
     ((cType channel = OpenAI \<or> cType channel = OpenAICompatible)
      \<and> testMethod channel = Balance)"

section \<open>Scheduler (\<^verbatim>\<open>scheduler/index.ts\<close>)\<close>

text \<open>
  What one probe meets: the network, the clock reading that the checker stamps on its
  result, what other handlers commit to the store while \<^verbatim>\<open>checkKey\<close> is awaited, the
  later clock reading that \<open>updateApiKey\<close> takes, and what other handlers commit during
  the 500 ms pause that follows the probe in the scheduler loop. The object literal
  passed to \<open>updateApiKey\<close> always has the property \<^verbatim>\<open>balance\<close>, with the value
  \<^verbatim>\<open>undefined\<close> when the result carries no balance, and its \<^verbatim>\<open>errorCount\<close> is computed
  from the key object that was read before the probe.
\<close>

record ProbeEnv =
  envFetch :: "FetchRequest \<Rightarrow> fetchOutcome"
  envChecked :: int
  envMeanwhile :: "storeOp list"
  envUpdated :: int
  envPause :: "storeOp list"

definition probeUpdates :: "KeyCheckResult \<Rightarrow> ApiKey \<Rightarrow> ApiKeyPatch" where
  "probeUpdates result k =
     noUpdates\<lparr>pStatus := Some (rcStatus result),
               pBalance := Some (rcBalance result),
               pLastChecked := Some (Some (checkedAt result)),
               pErrorCount := Some (if rcStatus result = Active then 0 else errorCount k + 1)\<rparr>"

text \<open>
  The \<^verbatim>\<open>try\<close> block of the inner loop of \<open>runKeyCheck\<close>, for the key object \<open>k\<close> read
  earlier from the store \<open>db\<close>: the probe, during which the store moves on, and the update.
\<close>

definition probeAndUpdate :: "ProbeEnv \<Rightarrow> Channel \<Rightarrow> ApiKey \<Rightarrow> Database \<Rightarrow> Database" where
  "probeAndUpdate env channel k db =
     (let result = checkKey (envFetch env) channel k (envChecked env)
      in snd (updateApiKey (kId k) (probeUpdates result k) (envUpdated env)
                (commit (envMeanwhile env) db)))"

text \<open>
  The loops of \<open>runKeyCheck\<close>; \<open>envOf\<close> gives what the probe of a key (by channel and key
  id) meets. The key objects of a channel are read when its pass begins. \<^verbatim>\<open>allKeys\<close> is
  the stored array itself, which the store operations above change in place, so each
  channel filters the keys as they then are. (The deletion of a channel replaces the
  stored array; a job during which a channel is deleted is outside this model.)
\<close>

fun checkChannelKeys ::
  "(string \<Rightarrow> string \<Rightarrow> ProbeEnv) \<Rightarrow> Channel \<Rightarrow> ApiKey list \<Rightarrow> Database \<Rightarrow> Database" where
  "checkChannelKeys envOf channel [] db = db"
| "checkChannelKeys envOf channel (k # ks) db =
     checkChannelKeys envOf channel ks
       (commit (envPause (envOf (cId channel) (kId k)))
          (probeAndUpdate (envOf (cId channel) (kId k)) channel k db))"

fun checkChannels ::
  "(string \<Rightarrow> string \<Rightarrow> ProbeEnv) \<Rightarrow> Channel list \<Rightarrow> Database \<Rightarrow> Database" where
  "checkChannels envOf [] db = db"
| "checkChannels envOf (channel # cs) db =
     (let channelKeys = filter (\<lambda>k. channelId k = cId channel \<and> status k \<noteq> Disabled)
                          (getApiKeys db)
      in checkChannels envOf cs (checkChannelKeys envOf channel channelKeys db))"

definition runKeyCheck :: "(string \<Rightarrow> string \<Rightarrow> ProbeEnv) \<Rightarrow> Database \<Rightarrow> Database" where
  "runKeyCheck envOf db = checkChannels envOf (filter cEnabled (getChannels db)) db"

text \<open>
  \<open>checkSingleKey\<close> reads the key and its channel, awaits the probe, and updates the
  store as it is by then.
\<close>

definition checkSingleKey :: "string \<Rightarrow> ProbeEnv \<Rightarrow> Database \<Rightarrow> string + Database" where
  "checkSingleKey kid env db =
     (case find (\<lambda>k. kId k = kid) (getApiKeys db) of
        None \<Rightarrow> Inl ''Key not found''
      | Some k \<Rightarrow>
          (case getChannelById (channelId k) db of
             None \<Rightarrow> Inl ''Channel not found''
           | Some channel \<Rightarrow>
               (let result = checkKey (envFetch env) channel k (envChecked env)
                in Inr (snd (updateApiKey (kId k) (probeUpdates result k) (envUpdated env)
                               (commit (envMeanwhile env) db))))))"

text \<open>
  For the statements below: the record that the update of a probe leaves for a stored key
  \<open>s\<close>, when the key object read before the probe was \<open>k\<close>.
\<close>

definition probed :: "ProbeEnv \<Rightarrow> Channel \<Rightarrow> ApiKey \<Rightarrow> ApiKey \<Rightarrow> ApiKey" where
  "probed env channel k s =
     s\<lparr>status := rcStatus (checkKey (envFetch env) channel k (envChecked env)),
       balance := rcBalance (checkKey (envFetch env) channel k (envChecked env)),
       lastChecked := Some (checkedAt (checkKey (envFetch env) channel k (envChecked env))),
       errorCount := (if rcStatus (checkKey (envFetch env) channel k (envChecked env)) = Active
                      then 0 else errorCount k + 1),
       kUpdatedAt := envUpdated env\<rparr>"

section \<open>Router (\<^verbatim>\<open>routes/openai.ts\<close>)\<close>

text \<open>
  \<^verbatim>\<open>MODEL_CHANNEL_MAP\<close>, in the insertion order that \<^verbatim>\<open>Object.entries\<close> enumerates.
\<close>

definition MODEL_CHANNEL_MAP :: "(string \<times> ChannelType list) list" where
  "MODEL_CHANNEL_MAP =
     [(''gpt-4'', [OpenAI, OpenAICompatible]),
      (''gpt-4-turbo'', [OpenAI, OpenAICompatible]),
      (''gpt-4o'', [OpenAI, OpenAICompatible]),
      (''gpt-4o-mini'', [OpenAI, OpenAICompatible]),
      (''gpt-3.5-turbo'', [OpenAI, OpenAICompatible]),
      (''o1'', [OpenAI, OpenAICompatible]),
      (''o1-mini'', [OpenAI, OpenAICompatible]),
      (''o1-preview'', [OpenAI, OpenAICompatible]),
      (''claude-3-opus'', [Anthropic]),
      (''claude-3-sonnet'', [Anthropic]),
      (''claude-3-haiku'', [Anthropic]),
      (''claude-3.5-sonnet'', [Anthropic]),
      (''claude-3-5-sonnet'', [Anthropic]),
      (''gemini-pro'', [Gemini]),
      (''gemini-1.5-pro'', [Gemini]),
      (''gemini-1.5-flash'', [Gemini])]"

text \<open>
  The first part of \<open>findChannelForModel\<close>: the types of the first entry whose name the
  model starts with, and the OpenAI pair when the scan finds none.
\<close>

definition matchingTypes :: "string \<Rightarrow> ChannelType list" where
  "matchingTypes m =
     (let found = (case find (\<lambda>entry. prefix (fst entry) m) MODEL_CHANNEL_MAP of
                     None \<Rightarrow> []
                   | Some entry \<Rightarrow> snd entry)
      in if length found = 0 then [OpenAI, OpenAICompatible] else found)"

definition eligibleChannels :: "string \<Rightarrow> string list \<Rightarrow> Database \<Rightarrow> Channel list" where
  "eligibleChannels m allowed db =
     (let enabledChannels = filter cEnabled (getChannels db);
          byType = filter (\<lambda>c. cType c \<in> set (matchingTypes m)) enabledChannels
      in if length allowed > 0 then filter (\<lambda>c. cId c \<in> set allowed) byType else byType)"

text \<open>
  The loop over the eligible channels; \<open>draw\<close> gives the random draw made while a channel
  is visited. A \<^verbatim>\<open>null\<close> or \<^verbatim>\<open>undefined\<close> selection moves on to the next channel.
\<close>

fun tryChannels ::
  "(string \<Rightarrow> real) \<Rightarrow> Channel list \<Rightarrow> Database \<Rightarrow> roundRobinIndex
     \<Rightarrow> (Channel \<times> ApiKey) option \<times> roundRobinIndex" where
  "tryChannels draw [] db rr = (None, rr)"
| "tryChannels draw (c # cs) db rr =
     (case selectKey (getActiveKeysByChannel (cId c) db) (loadBalanceStrategy c) (cId c) rr
             (draw (cId c)) of
        (Selected k, rr') \<Rightarrow> (Some (c, k), rr')
      | (_, rr') \<Rightarrow> tryChannels draw cs db rr')"

definition findChannelForModel ::
  "(string \<Rightarrow> real) \<Rightarrow> string \<Rightarrow> string list \<Rightarrow> Database \<Rightarrow> roundRobinIndex
     \<Rightarrow> (Channel \<times> ApiKey) option \<times> roundRobinIndex" where
  "findChannelForModel draw m allowed db rr =
     tryChannels draw (eligibleChannels m allowed db) db rr"

text \<open>
  The relay of \<^verbatim>\<open>POST /v1/chat/completions\<close>, from the selected channel and key on;
  \<open>db\<close> is the store from which the key object \<open>k\<close> was selected. The upstream either
  rejects the \<^verbatim>\<open>fetch\<close>, or answers with a status and a body whose reading
  (\<^verbatim>\<open>response.json()\<close>, or the stream reader of a streamed 2xx answer) either completes
  with the data or throws; for a stream that throws, the flag says whether a chunk had
  already been written to the client. Everything from the \<^verbatim>\<open>fetch\<close> to the last \<open>addLog\<close>
  is inside one \<^verbatim>\<open>try\<close>, so a throw while the body is read reaches the same \<^verbatim>\<open>catch\<close>
  block as a rejected \<^verbatim>\<open>fetch\<close>, after the first key update has been written. Both
  updates compute from \<open>k\<close>, the object selected before the \<^verbatim>\<open>fetch\<close>: \<open>updateApiKey\<close>
  stores a fresh object and leaves \<open>k\<close> as it was. (A failing write of the store is fatal
  and not modelled.)
\<close>

datatype bodyRead = Complete string | Broken thrown bool

datatype upstream = FetchRejected thrown | Answered nat bodyRead

text \<open>
  The clock readings of one run, in the order of the handler: at entry; for the latency,
  the log timestamp and \<^verbatim>\<open>lastUsed\<close>; inside the first \<open>updateApiKey\<close>; inside \<open>addLog\<close>;
  and in the \<^verbatim>\<open>catch\<close> block for the latency, inside its \<open>updateApiKey\<close>, for the
  timestamp of the failure log and inside its \<open>addLog\<close>.
\<close>

record RelayClock =
  tStart :: int
  tLatency :: int
  tTimestamp :: int
  tLastUsed :: int
  tUpdated :: int
  tLogged :: int
  tCaught :: int
  tCaughtUpdated :: int
  tFailureTimestamp :: int
  tFailureLogged :: int

text \<open>
  What other handlers commit to the store while this one awaits: the \<^verbatim>\<open>fetch\<close>; the
  first key update and the reading of the body; the key update of the \<^verbatim>\<open>catch\<close> block.
\<close>

record RelayOthers =
  whileFetching :: "storeOp list"
  whileReading :: "storeOp list"
  whileCatching :: "storeOp list"

text \<open>
  The reply: the streamed body, the mirrored JSON answer, the 500 of the \<^verbatim>\<open>catch\<close> block,
  or, when that 500 is attempted after a chunk of the stream was written, the
  \<^verbatim>\<open>ERR_HTTP_HEADERS_SENT\<close> that the handler then throws (after its store writes).
\<close>

datatype relayReply = Streamed | Json nat string | Failure nat errorBody | HeadersSent

definition relayLog ::
  "string \<Rightarrow> int \<Rightarrow> Token \<Rightarrow> Channel \<Rightarrow> ApiKey \<Rightarrow> string \<Rightarrow> nat \<Rightarrow> int \<Rightarrow> bool
     \<Rightarrow> string option \<Rightarrow> RequestLog" where
  "relayLog logId ts tokenInfo channel k m code lat isStreaming err =
     \<lparr>lId = logId, timestamp = ts, tokenId = Some (tId tokenInfo), lChannelId = cId channel,
      keyId = kId k, model = m, path = ''/v1/chat/completions'', lMethod = ''POST'',
      lStatus = int code, latency = lat, inputTokens = None, outputTokens = None,
      lError = err, streaming = isStreaming\<rparr>"

text \<open>The two object literals passed to \<open>updateApiKey\<close>.\<close>

definition answeredUpdates :: "RelayClock \<Rightarrow> nat \<Rightarrow> ApiKey \<Rightarrow> ApiKeyPatch" where
  "answeredUpdates clock code k =
     noUpdates\<lparr>pLastUsed := Some (Some (tLastUsed clock)),
               pTotalRequests := Some (totalRequests k + 1),
               pErrorCount := Some (if ok code then 0 else errorCount k + 1)\<rparr>"

definition caughtUpdates :: "ApiKey \<Rightarrow> ApiKeyPatch" where
  "caughtUpdates k = noUpdates\<lparr>pErrorCount := Some (errorCount k + 1)\<rparr>"

text \<open>
  The \<^verbatim>\<open>catch\<close> block, entered with the store \<open>db\<close>; \<open>sent\<close> says whether the headers of
  the reply have gone out already.
\<close>

definition relayCaught ::
  "thrown \<Rightarrow> bool \<Rightarrow> RelayClock \<Rightarrow> RelayOthers \<Rightarrow> string \<Rightarrow> Token \<Rightarrow> Channel \<Rightarrow> ApiKey
     \<Rightarrow> string \<Rightarrow> bool \<Rightarrow> Database \<Rightarrow> relayReply \<times> Database" where
  "relayCaught e sent clock others logId tokenInfo channel k m isStreaming db =
     (let lat = tCaught clock - tStart clock;
          errorMsg = (case e of ErrorObject msg \<Rightarrow> msg | OtherValue \<Rightarrow> ''Unknown error'');
          db1 = snd (updateApiKey (kId k) (caughtUpdates k) (tCaughtUpdated clock) db);
          db2 = addLog (relayLog logId (tFailureTimestamp clock) tokenInfo channel k m 500 lat
                          isStreaming (Some errorMsg))
                  (tFailureLogged clock) (commit (whileCatching others) db1)
      in (if sent then HeadersSent else Failure 500 (ErrorBody errorMsg ''server_error''),
          db2))"

definition relay ::
  "upstream \<Rightarrow> RelayClock \<Rightarrow> RelayOthers \<Rightarrow> string \<Rightarrow> string \<Rightarrow> Token \<Rightarrow> Channel \<Rightarrow> ApiKey
     \<Rightarrow> string \<Rightarrow> bool \<Rightarrow> Database \<Rightarrow> relayReply \<times> Database" where
  "relay up clock others logId failId tokenInfo channel k m isStreaming db =
     (let db0 = commit (whileFetching others) db
      in case up of
           FetchRejected e \<Rightarrow>
             relayCaught e False clock others failId tokenInfo channel k m isStreaming db0
         | Answered code body \<Rightarrow>
             (let lat = tLatency clock - tStart clock;
                  entry = relayLog logId (tTimestamp clock) tokenInfo channel k m code lat
                            isStreaming None;
                  db1 = snd (updateApiKey (kId k) (answeredUpdates clock code k)
                               (tUpdated clock) db0);
                  db2 = commit (whileReading others) db1
              in case body of
                   Broken e wrote \<Rightarrow>
                     relayCaught e (isStreaming \<and> ok code \<and> wrote) clock others failId
                       tokenInfo channel k m isStreaming db2
                 | Complete content \<Rightarrow>
                     if isStreaming \<and> ok code then
                       (Streamed, addLog entry (tLogged clock) db2)
                     else
                       (Json code content,
                        addLog (if ok code then entry else entry\<lparr>lError := Some content\<rparr>)
                          (tLogged clock) db2)))"

section \<open>The routing table as the specification words it\<close>

text \<open>
  The model-to-provider map of the specification, by family, and its resolution rule:
  the longest table entry that is a prefix of the model decides, and a model that no
  entry is a prefix of resolves to the OpenAI pair.
\<close>

definition specModelTable :: "(string \<times> ChannelType list) list" where
  "specModelTable =
     map (\<lambda>p. (p, [OpenAI, OpenAICompatible]))
       [''gpt-4'', ''gpt-4-turbo'', ''gpt-4o'', ''gpt-4o-mini'', ''gpt-3.5-turbo'',
        ''o1'', ''o1-mini'', ''o1-preview'']
     @ map (\<lambda>p. (p, [Anthropic]))
       [''claude-3-opus'', ''claude-3-sonnet'', ''claude-3-haiku'', ''claude-3.5-sonnet'',
        ''claude-3-5-sonnet'']
     @ map (\<lambda>p. (p, [Gemini])) [''gemini-pro'', ''gemini-1.5-pro'', ''gemini-1.5-flash'']"

definition longestPrefixMatch ::
  "string \<Rightarrow> (string \<times> 'a) list \<Rightarrow> (string \<times> 'a) option" where
  "longestPrefixMatch m table =
     foldl (\<lambda>best entry.
              if prefix (fst entry) m
                 \<and> (case best of None \<Rightarrow> True | Some b \<Rightarrow> length (fst b) < length (fst entry))
              then Some entry else best)
       None table"

definition specTypes :: "string \<Rightarrow> ChannelType list" where
  "specTypes m =
     (case longestPrefixMatch m specModelTable of
        None \<Rightarrow> [OpenAI, OpenAICompatible]
      | Some entry \<Rightarrow> snd entry)"

text \<open>
  For the proofs: the provider family that the first two characters of a table entry
  determine.
\<close>

definition familyTypes :: "string \<Rightarrow> ChannelType list" where
  "familyTypes two =
     (if two = ''cl'' then [Anthropic]
      else if two = ''ge'' then [Gemini]
      else [OpenAI, OpenAICompatible])"

section \<open>Example data\<close>

text \<open>Concrete channels, keys, tokens and logs on which the theorems below are run.\<close>

definition exChannel :: "string \<Rightarrow> ChannelType \<Rightarrow> TestMethod \<Rightarrow> LoadBalanceStrategy \<Rightarrow> Channel" where
  "exChannel i ty tm strategy =
     \<lparr>cId = i, cName = i, cType = ty, baseUrl = ''https://api.example.com/'',
      testMethod = tm, testModel = None, proxyId = None, loadBalanceStrategy = strategy,
      cEnabled = True, cCreatedAt = 1000, cUpdatedAt = 1000\<rparr>"

definition exKey :: "string \<Rightarrow> string \<Rightarrow> ApiKeyStatus \<Rightarrow> int \<Rightarrow> int \<Rightarrow> int \<Rightarrow> ApiKey" where
  "exKey i c st prio w errs =
     \<lparr>kId = i, channelId = c, key = ''sk-'' @ i, kAlias = None, status = st,
      priority = prio, weight = w, balance = None, lastChecked = None, lastUsed = None,
      errorCount = errs, totalRequests = 7, kCreatedAt = 1000, kUpdatedAt = 1000\<rparr>"

definition exToken :: "int option \<Rightarrow> Token" where
  "exToken limit =
     \<lparr>tId = ''tok1'', tName = ''client'', token = ''kh-00'', allowedChannels = [],
      rateLimit = limit, tEnabled = True, tCreatedAt = 1000, tLastUsed = None\<rparr>"

definition exLog :: "string \<Rightarrow> int \<Rightarrow> RequestLog" where
  "exLog i ts =
     \<lparr>lId = i, timestamp = ts, tokenId = None, lChannelId = ''chX'', keyId = ''k1'',
      model = ''gpt-4'', path = ''/v1/chat/completions'', lMethod = ''POST'', lStatus = 200,
      latency = 12, inputTokens = None, outputTokens = None, lError = None,
      streaming = False\<rparr>"

definition exDb :: "Channel list \<Rightarrow> ApiKey list \<Rightarrow> RequestLog list \<Rightarrow> Database" where
  "exDb cs ks ls =
     \<lparr>channels = cs, apiKeys = ks, proxies = [], tokens = [], logs = ls,
      settings = \<lparr>checkInterval = 3600000, maxLogsRetention = 604800000\<rparr>\<rparr>"


definition exProbeEnv :: "fetchOutcome \<Rightarrow> storeOp list \<Rightarrow> ProbeEnv" where
  "exProbeEnv out ops =
     \<lparr>envFetch = upstreamAnswers out, envChecked = 5000, envMeanwhile = ops,
      envUpdated = 5001, envPause = []\<rparr>"


definition exEnvOf :: "fetchOutcome \<Rightarrow> string \<Rightarrow> string \<Rightarrow> ProbeEnv" where
  "exEnvOf out c i = exProbeEnv out []"

section \<open>Helper facts about the array operations\<close>

lemma findIndex_None: "findIndex P xs = None \<longleftrightarrow> (\<forall>x\<in>set xs. \<not> P x)"
  by (induction xs) auto

lemma findIndex_Some:
  "findIndex P xs = Some i \<Longrightarrow> i < length xs \<and> P (xs ! i) \<and> find P xs = Some (xs ! i)"
proof (induction xs arbitrary: i)
  case Nil
  then show ?case by simp
next
  case (Cons x xs)
  show ?case
  proof (cases "P x")
    case True
    with Cons.prems show ?thesis by simp
  next
    case False
    with Cons.prems obtain j where j: "findIndex P xs = Some j" "i = Suc j"
      by auto
    with Cons.IH [of j] False show ?thesis by simp
  qed
qed

lemma findIndex_remove1:
  "findIndex P xs = Some i \<Longrightarrow> splice1 i xs = remove1 (xs ! i) xs"
proof (induction xs arbitrary: i)
  case Nil
  then show ?case by simp
next
  case (Cons x xs)
  show ?case
  proof (cases "P x")
    case True
    with Cons.prems show ?thesis by (simp add: splice1_def)
  next
    case False
    with Cons.prems obtain j where j: "findIndex P xs = Some j" "i = Suc j"
      by auto
    from findIndex_Some [OF j(1)] have "P (xs ! j)" by simp
    with False have "x \<noteq> xs ! j" by auto
    with Cons.IH [OF j(1)] j(2) show ?thesis
      by (simp add: splice1_def)
  qed
qed

lemma findIndex_distinct_gone:
  assumes "findIndex (\<lambda>c. f c = i) xs = Some n" and "distinct (map f xs)"
  shows "\<forall>c\<in>set (splice1 n xs). f c \<noteq> i"
proof -
  from findIndex_Some [OF assms(1)] have n: "n < length xs" "f (xs ! n) = i"
    by simp_all
  have "xs = take n xs @ xs ! n # drop (Suc n) xs"
    using n(1) by (simp add: id_take_nth_drop)
  then have "distinct (map f (take n xs @ xs ! n # drop (Suc n) xs))"
    using assms(2) by simp
  then have "f (xs ! n) \<notin> f ` set (take n xs) \<and> f (xs ! n) \<notin> f ` set (drop (Suc n) xs)"
    by auto
  with n(2) show ?thesis
    unfolding splice1_def by (metis Un_iff image_eqI set_append)
qed

section \<open>Cascading channel deletion\<close>

text \<open>
  C1. For a channel id present in the store, \<open>deleteChannel\<close> succeeds and, in the one
  mutation it performs, removes the (first) channel carrying that id and every key whose
  \<open>channelId\<close> is that id: afterwards no key references the id, the keys of all other
  channels are exactly the ones stored before, in the same order, and nothing else of the
  document changes. Where channel ids are distinct, no channel with the id remains.
\<close>

theorem deleteChannel_cascades:
  assumes "\<exists>c\<in>set (channels db). cId c = i"
  shows "\<exists>c db'. deleteChannel i db = (True, db')
           \<and> getChannelById i db = Some c
           \<and> channels db' = remove1 c (channels db)
           \<and> apiKeys db' = filter (\<lambda>k. channelId k \<noteq> i) (apiKeys db)
           \<and> (\<forall>k\<in>set (apiKeys db'). channelId k \<noteq> i)
           \<and> (\<forall>k. channelId k \<noteq> i \<longrightarrow> (k \<in> set (apiKeys db') \<longleftrightarrow> k \<in> set (apiKeys db)))
           \<and> (distinct (map cId (channels db)) \<longrightarrow> (\<forall>c'\<in>set (channels db'). cId c' \<noteq> i))
           \<and> proxies db' = proxies db \<and> tokens db' = tokens db
           \<and> logs db' = logs db \<and> settings db' = settings db"
proof -
  from assms obtain n where n: "findIndex (\<lambda>c. cId c = i) (channels db) = Some n"
    using findIndex_None [of "\<lambda>c. cId c = i" "channels db"] by (cases "findIndex (\<lambda>c. cId c = i) (channels db)") auto
  note s = findIndex_Some [OF n]
  note r = findIndex_remove1 [OF n]
  have d: "distinct (map cId (channels db)) \<longrightarrow> (\<forall>c'\<in>set (splice1 n (channels db)). cId c' \<noteq> i)"
    using findIndex_distinct_gone [OF n] by blast
  show ?thesis
    using n s r d by (simp add: deleteChannel_def getChannelById_def)
qed

theorem deleteChannel_cascades_witness:
  "(\<exists>c\<in>set (channels (exDb [exChannel ''chX'' OpenAI Chat Priority,
                               exChannel ''chY'' Anthropic Chat RoundRobin]
                        [exKey ''k1'' ''chX'' Active 50 50 0, exKey ''k2'' ''chY'' Active 50 50 0,
                         exKey ''k3'' ''chX'' Invalid 50 50 2] [])). cId c = ''chX'')
   \<and> deleteChannel ''chX'' (exDb [exChannel ''chX'' OpenAI Chat Priority,
                               exChannel ''chY'' Anthropic Chat RoundRobin]
        [exKey ''k1'' ''chX'' Active 50 50 0, exKey ''k2'' ''chY'' Active 50 50 0,
         exKey ''k3'' ''chX'' Invalid 50 50 2] [])
     = (True, exDb [exChannel ''chY'' Anthropic Chat RoundRobin]
                [exKey ''k2'' ''chY'' Active 50 50 0] [])"
proof -
  let ?db = "exDb [exChannel ''chX'' OpenAI Chat Priority,
                   exChannel ''chY'' Anthropic Chat RoundRobin]
               [exKey ''k1'' ''chX'' Active 50 50 0, exKey ''k2'' ''chY'' Active 50 50 0,
                exKey ''k3'' ''chX'' Invalid 50 50 2] []"
  have h: "\<exists>c\<in>set (channels ?db). cId c = ''chX''"
    by (simp add: exDb_def exChannel_def)
  from deleteChannel_cascades [OF h] obtain c db' where
    d: "deleteChannel ''chX'' ?db = (True, db')"
    and c: "getChannelById ''chX'' ?db = Some c"
    and cs: "channels db' = remove1 c (channels ?db)"
    and ks: "apiKeys db' = filter (\<lambda>k. channelId k \<noteq> ''chX'') (apiKeys ?db)"
    and rest: "proxies db' = proxies ?db" "tokens db' = tokens ?db" "logs db' = logs ?db"
      "settings db' = settings ?db"
    by blast
  from c have c': "c = exChannel ''chX'' OpenAI Chat Priority"
    by (simp add: getChannelById_def exDb_def exChannel_def)
  have "db' = exDb [exChannel ''chY'' Anthropic Chat RoundRobin]
                [exKey ''k2'' ''chY'' Active 50 50 0] []"
    using cs ks rest c' by (simp add: exDb_def exChannel_def exKey_def)
  with h d show ?thesis by simp
qed

section \<open>Rate limiting\<close>

lemma rateLimit_step_inside:
  assumes "rateLimit tok = Some L" "L \<noteq> 0" "rc (tId tok) = Some (c, ra)" "now < ra"
  shows "rateLimitMiddleware (Some tok) now rc =
           (if c + 1 > L then Reply 429 (ErrorBody ''Rate limit exceeded'' ''rate_limit_error'')
            else Next, rc(tId tok \<mapsto> (c + 1, ra)))"
  using assms by (simp add: rateLimitMiddleware_def Let_def)

lemma rateLimit_step_fresh:
  assumes "rateLimit tok = Some L" "L \<noteq> 0"
    and "case rc (tId tok) of None \<Rightarrow> True | Some (c, ra) \<Rightarrow> ra \<le> now"
  shows "rateLimitMiddleware (Some tok) now rc =
           (if 1 > L then Reply 429 (ErrorBody ''Rate limit exceeded'' ''rate_limit_error'')
            else Next, rc(tId tok \<mapsto> (1, now + 60000)))"
  using assms by (auto simp: rateLimitMiddleware_def Let_def windowMs_def split: option.splits)

text \<open>A request of another token leaves the window of this token as it is.\<close>

lemma rateLimit_other_token:
  "tId tok' \<noteq> tId tok \<Longrightarrow>
     snd (rateLimitMiddleware (Some tok') now rc) (tId tok) = rc (tId tok)"
  by (simp add: rateLimitMiddleware_def Let_def split: option.splits prod.splits)

lemma rateLimitRun_Cons:
  "rateLimitRun tok (t # ts) rc =
     (fst (rateLimitMiddleware (Some tok) t rc)
        # fst (rateLimitRun tok ts (snd (rateLimitMiddleware (Some tok) t rc))),
      snd (rateLimitRun tok ts (snd (rateLimitMiddleware (Some tok) t rc))))"
  by (simp split: prod.splits)

lemma rateLimitRun_length: "length (fst (rateLimitRun tok ts rc)) = length ts"
  by (induction ts arbitrary: rc) (simp_all add: rateLimitRun_Cons del: rateLimitRun.simps(2))

lemma rateLimitRun_inside:
  assumes "rateLimit tok = Some L" "L \<noteq> 0"
  shows "rc (tId tok) = Some (c, ra) \<Longrightarrow> \<forall>t\<in>set ts. t < ra \<Longrightarrow> i < length ts \<Longrightarrow>
         fst (rateLimitRun tok ts rc) ! i =
               (if c + int i + 1 > L
                then Reply 429 (ErrorBody ''Rate limit exceeded'' ''rate_limit_error'')
                else Next)"
proof (induction ts arbitrary: c rc i)
  case Nil
  then show ?case by simp
next
  case (Cons t ts)
  have t: "t < ra" using Cons.prems(2) by simp
  note step = rateLimit_step_inside [where tok=tok and L=L and rc=rc and c=c and ra=ra and now=t,
      OF assms Cons.prems(1) t]
  show ?case
  proof (cases i)
    case 0
    then show ?thesis by (simp add: rateLimitRun_Cons step del: rateLimitRun.simps(2))
  next
    case (Suc j)
    have a: "(snd (rateLimitMiddleware (Some tok) t rc)) (tId tok) = Some (c + 1, ra)"
      by (simp add: step)
    have b: "\<forall>t\<in>set ts. t < ra" using Cons.prems(2) by simp
    have c: "j < length ts" using Cons.prems(3) Suc by simp
    have "fst (rateLimitRun tok ts (snd (rateLimitMiddleware (Some tok) t rc))) ! j =
               (if (c + 1) + int j + 1 > L
                then Reply 429 (ErrorBody ''Rate limit exceeded'' ''rate_limit_error'')
                else Next)"
      using a b c by (rule Cons.IH)
    then show ?thesis
      using Suc by (simp add: rateLimitRun_Cons add.commute add.left_commute del: rateLimitRun.simps(2))
  qed
qed

text \<open>
  C4. A token with a positive \<open>rateLimit\<close> \<open>L\<close> sends a request at \<open>t0\<close> that opens a
  window (it has no record yet, or \<open>t0\<close> is at or after the \<open>resetAt\<close> of its record), and
  then further requests before \<open>t0 + 60000\<close>. The opening request is accepted and sets the
  record to count 1 and \<open>resetAt = t0 + 60000\<close>; of the whole run, the requests number
  \<open>1 .. L\<close> pass through and every later one is answered 429 with the body
  \<^verbatim>\<open>{error: {message: "Rate limit exceeded", type: "rate_limit_error"}}\<close>.
\<close>

theorem rateLimit_window:
  assumes "rateLimit tok = Some L" and "0 < L"
    and "case rc (tId tok) of None \<Rightarrow> True | Some (c, resetAt) \<Rightarrow> resetAt \<le> t0"
    and "\<forall>t\<in>set ts. t < t0 + 60000"
  shows "rateLimitMiddleware (Some tok) t0 rc = (Next, rc(tId tok \<mapsto> (1, t0 + 60000)))
         \<and> length (fst (rateLimitRun tok (t0 # ts) rc)) = Suc (length ts)
         \<and> (\<forall>i\<le>length ts. fst (rateLimitRun tok (t0 # ts) rc) ! i =
               (if int i < L then Next
                else Reply 429 (ErrorBody ''Rate limit exceeded'' ''rate_limit_error'')))"
proof -
  from assms(2) have L0: "L \<noteq> 0" by simp
  have first: "rateLimitMiddleware (Some tok) t0 rc = (Next, rc(tId tok \<mapsto> (1, t0 + 60000)))"
    using rateLimit_step_fresh [where tok=tok and L=L and rc=rc and now=t0, OF assms(1) L0 assms(3)]
      assms(2) by simp
  have a: "(snd (rateLimitMiddleware (Some tok) t0 rc)) (tId tok) = Some (1, t0 + 60000)"
    by (simp add: first)
  have nth: "fst (rateLimitRun tok (t0 # ts) rc) ! i =
               (if int i < L then Next
                else Reply 429 (ErrorBody ''Rate limit exceeded'' ''rate_limit_error''))"
    if "i \<le> length ts" for i
  proof (cases i)
    case 0
    with first assms(2) show ?thesis
      by (simp add: rateLimitRun_Cons del: rateLimitRun.simps(2))
  next
    case (Suc j)
    with that have j: "j < length ts" by simp
    have "fst (rateLimitRun tok ts (snd (rateLimitMiddleware (Some tok) t0 rc))) ! j =
               (if 1 + int j + 1 > L
                then Reply 429 (ErrorBody ''Rate limit exceeded'' ''rate_limit_error'')
                else Next)"
      using a assms(4) j by (rule rateLimitRun_inside [OF assms(1) L0])
    with Suc show ?thesis
      by (auto simp: rateLimitRun_Cons simp del: rateLimitRun.simps(2))
  qed
  have len: "length (fst (rateLimitRun tok (t0 # ts) rc)) = Suc (length ts)"
    by (simp add: rateLimitRun_length del: rateLimitRun.simps(2))
  from first len nth show ?thesis by blast
qed

theorem rateLimit_window_witness:
  "rateLimit (exToken (Some 2)) = Some 2 \<and> (0::int) < 2
   \<and> rateLimitMiddleware (Some (exToken (Some 2))) 1000 Map.empty =
         (Next, Map.empty(tId (exToken (Some 2)) \<mapsto> (1, 1000 + 60000)))
   \<and> length (fst (rateLimitRun (exToken (Some 2)) (1000 # [2000, 5000, 60999]) Map.empty)) = 4
   \<and> fst (rateLimitRun (exToken (Some 2)) (1000 # [2000, 5000, 60999]) Map.empty) ! 0 = Next
   \<and> fst (rateLimitRun (exToken (Some 2)) (1000 # [2000, 5000, 60999]) Map.empty) ! 1 = Next
   \<and> fst (rateLimitRun (exToken (Some 2)) (1000 # [2000, 5000, 60999]) Map.empty) ! 2
       = Reply 429 (ErrorBody ''Rate limit exceeded'' ''rate_limit_error'')
   \<and> fst (rateLimitRun (exToken (Some 2)) (1000 # [2000, 5000, 60999]) Map.empty) ! 3
       = Reply 429 (ErrorBody ''Rate limit exceeded'' ''rate_limit_error'')"
proof -
  let ?run = "fst (rateLimitRun (exToken (Some 2)) (1000 # [2000, 5000, 60999]) Map.empty)"
  have h1: "rateLimit (exToken (Some 2)) = Some 2" by (simp add: exToken_def)
  have h2: "(0::int) < 2" by simp
  have h3: "case (Map.empty :: requestCounts) (tId (exToken (Some 2))) of None \<Rightarrow> True
       | Some (c, resetAt) \<Rightarrow> resetAt \<le> (1000::int)" by simp
  have h4: "\<forall>t\<in>set [2000, 5000, 60999]. t < (1000::int) + 60000" by simp
  note w = rateLimit_window [where tok="exToken (Some 2)" and L=2 and rc=Map.empty
      and ?t0.0=1000 and ts="[2000, 5000, 60999]", OF h1 h2 h3 h4]
  note first = w [THEN conjunct1]
  have len: "length ?run = 4"
    using w [THEN conjunct2, THEN conjunct1] by simp
  have nth: "?run ! i = (if int i < 2 then Next
               else Reply 429 (ErrorBody ''Rate limit exceeded'' ''rate_limit_error''))"
    if "i \<le> 3" for i
    using w [THEN conjunct2, THEN conjunct2, rule_format, of i] that by simp
  have n0: "?run ! 0 = Next" using nth [of 0] by simp
  have n1: "?run ! 1 = Next" using nth [of 1] by simp
  have n2: "?run ! 2 = Reply 429 (ErrorBody ''Rate limit exceeded'' ''rate_limit_error'')"
    using nth [of 2] by simp
  have n3: "?run ! 3 = Reply 429 (ErrorBody ''Rate limit exceeded'' ''rate_limit_error'')"
    using nth [of 3] by simp
  from h1 h2 first len n0 n1 n2 n3 show ?thesis by (intro conjI)
qed

text \<open>
  The scenario of a limit of 2: the third and fourth request of the window are rejected,
  and the request at the window's \<open>resetAt\<close> is accepted again.
\<close>

lemma rateLimit_window_run:
  "fst (rateLimitRun (exToken (Some 2)) [1000, 2000, 5000, 60999, 61000] Map.empty) =
     [Next, Next, Reply 429 (ErrorBody ''Rate limit exceeded'' ''rate_limit_error''),
      Reply 429 (ErrorBody ''Rate limit exceeded'' ''rate_limit_error''), Next]"
  by (simp add: rateLimitMiddleware_def exToken_def windowMs_def Let_def)

lemma rateLimitRun_zero:
  "rateLimit tok = Some 0 \<or> rateLimit tok = None \<Longrightarrow>
     rateLimitRun tok nows rc = (replicate (length nows) Next, rc)"
  by (induction nows) (auto simp: rateLimitMiddleware_def)

text \<open>
  C10. A token whose \<open>rateLimit\<close> is 0 is not limited: the middleware passes each of its
  requests on and leaves the counters untouched, exactly as for a token without
  \<open>rateLimit\<close>; and the validator of token creation accepts the value 0 wherever it accepts
  the request without a limit, the stored token then carrying \<open>rateLimit = 0\<close>.
\<close>

theorem rateLimit_zero_unlimited:
  "rateLimitMiddleware (Some (tok\<lparr>rateLimit := Some 0\<rparr>)) now rc = (Next, rc)
   \<and> rateLimitMiddleware (Some (tok\<lparr>rateLimit := Some 0\<rparr>)) now rc
       = rateLimitMiddleware (Some (tok\<lparr>rateLimit := None\<rparr>)) now rc
   \<and> rateLimitRun (tok\<lparr>rateLimit := Some 0\<rparr>) nows rc = (replicate (length nows) Next, rc)
   \<and> (createTokenSchema (data\<lparr>rRateLimit := Some 0\<rparr>)
        \<longleftrightarrow> createTokenSchema (data\<lparr>rRateLimit := None\<rparr>))
   \<and> rateLimit (newToken (data\<lparr>rRateLimit := Some 0\<rparr>) newId tokenValue created) = Some 0"
proof -
  have zero: "rateLimitMiddleware (Some (tok\<lparr>rateLimit := Some 0\<rparr>)) now rc = (Next, rc)"
    by (simp add: rateLimitMiddleware_def)
  have absent: "rateLimitMiddleware (Some (tok\<lparr>rateLimit := None\<rparr>)) now rc = (Next, rc)"
    by (simp add: rateLimitMiddleware_def)
  have run: "rateLimitRun (tok\<lparr>rateLimit := Some 0\<rparr>) nows rc
               = (replicate (length nows) Next, rc)"
    by (rule rateLimitRun_zero) simp
  have schema: "createTokenSchema (data\<lparr>rRateLimit := Some 0\<rparr>)
                  \<longleftrightarrow> createTokenSchema (data\<lparr>rRateLimit := None\<rparr>)"
    by (simp add: createTokenSchema_def)
  have stored: "rateLimit (newToken (data\<lparr>rRateLimit := Some 0\<rparr>) newId tokenValue created)
                  = Some 0"
    by (simp add: newToken_def)
  from zero absent run schema stored show ?thesis
    by simp
qed

theorem rateLimit_zero_unlimited_witness:
  "createTokenSchema \<lparr>rName = ''client'', rAllowedChannels = None, rRateLimit = Some 0,
                      rEnabled = None\<rparr>
   \<and> rateLimit (newToken \<lparr>rName = ''client'', rAllowedChannels = None, rRateLimit = Some 0,
                      rEnabled = None\<rparr> ''tok1'' ''kh-00'' 1000) = Some 0
   \<and> rateLimitRun (exToken (Some 0)) [1, 2, 3] Map.empty = ([Next, Next, Next], Map.empty)"
proof -
  note z = rateLimit_zero_unlimited [where tok="exToken (Some 0)" and now=1 and rc=Map.empty
      and nows="[1, 2, 3]" and newId="''tok1''" and tokenValue="''kh-00''" and created=1000
      and data="\<lparr>rName = ''client'', rAllowedChannels = None, rRateLimit = Some 0,
                  rEnabled = None\<rparr>"]
  have e: "exToken (Some 0)\<lparr>rateLimit := Some 0\<rparr> = exToken (Some 0)"
    by (simp add: exToken_def)
  have s: "createTokenSchema \<lparr>rName = ''client'', rAllowedChannels = None, rRateLimit = Some 0,
                      rEnabled = None\<rparr>"
    by (simp add: createTokenSchema_def)
  have r: "replicate (length [1, 2, 3 :: int]) Next = [Next, Next, Next]"
    by (simp add: numeral_eq_Suc)
  from z e s r show ?thesis
    by (simp del: rateLimitRun.simps)
qed

section \<open>Key selection\<close>

lemma elemAt_Some: "i < length xs \<Longrightarrow> elemAt xs i = Some (xs ! i)"
  by (simp add: elemAt_def)

lemma weightedScan_mem: "weightedScan ks x = Some k \<Longrightarrow> k \<in> set ks"
  by (induction ks arbitrary: x) (auto simp: Let_def split: if_splits)

lemma floor_index:
  assumes "0 \<le> r" "r < 1" "0 < n"
  shows "0 \<le> \<lfloor>r * real n\<rfloor> \<and> nat \<lfloor>r * real n\<rfloor> < n"
proof -
  have a: "0 \<le> r * real n" using assms by simp
  have b: "r * real n < real n" using assms by simp
  from a have f0: "0 \<le> \<lfloor>r * real n\<rfloor>" by simp
  from b have "\<lfloor>r * real n\<rfloor> < int n" by (simp add: floor_less_iff)
  with f0 show ?thesis by linarith
qed

lemma weightedSelect_mem:
  assumes "ks \<noteq> []" "0 \<le> r" "r < 1"
  shows "\<exists>k\<in>set ks. weightedSelect ks r = Some k"
proof (cases "foldl (\<lambda>sum k. sum + weight k) 0 ks = 0")
  case True
  from assms(1) have n: "0 < length ks" by simp
  from floor_index [OF assms(2,3) n] True show ?thesis
    by (simp add: weightedSelect_def Let_def elemAt_def)
next
  case False
  show ?thesis
  proof (cases "weightedScan ks (r * real_of_int (foldl (\<lambda>sum k. sum + weight k) 0 ks))")
    case None
    with False assms(1) show ?thesis
      by (simp add: weightedSelect_def Let_def elemAt_def last_conv_nth [symmetric])
  next
    case (Some k)
    with False weightedScan_mem [OF Some] show ?thesis
      by (simp add: weightedSelect_def Let_def)
  qed
qed

lemma roundRobinSelect_mem:
  assumes "ks \<noteq> []"
  shows "\<exists>k\<in>set ks. fst (roundRobinSelect ks c rr) = Some k"
  using assms by (simp add: roundRobinSelect_def Let_def elemAt_def)

text \<open>The \<^verbatim>\<open>reduce\<close> that keeps the first element of least measure.\<close>

lemma reduce_least:
  fixes f :: "'a \<Rightarrow> int"
  defines "step \<equiv> (\<lambda>best k. if f k < f best then k else best)"
  shows "f (foldl step b xs) \<le> f b
         \<and> (\<forall>x\<in>set xs. f (foldl step b xs) \<le> f x)
         \<and> (if f (foldl step b xs) = f b then foldl step b xs = b
             else find (\<lambda>x. f x = f (foldl step b xs)) xs = Some (foldl step b xs))"
proof (induction xs arbitrary: b)
  case Nil
  then show ?case by simp
next
  case (Cons x xs)
  show ?case
  proof (cases "f x < f b")
    case True
    then have s: "foldl step b (x # xs) = foldl step x xs" by (simp add: step_def)
    from Cons.IH [of x] True show ?thesis
      unfolding s by (auto split: if_splits)
  next
    case False
    then have s: "foldl step b (x # xs) = foldl step b xs" by (simp add: step_def)
    from Cons.IH [of b] False show ?thesis
      unfolding s by (auto split: if_splits)
  qed
qed

lemma reduce_least_head:
  fixes f :: "'a \<Rightarrow> int"
  defines "step \<equiv> (\<lambda>best k. if f k < f best then k else best)"
  shows "foldl step b (b # xs) \<in> set (b # xs)
         \<and> (\<forall>x\<in>set (b # xs). f (foldl step b (b # xs)) \<le> f x)
         \<and> find (\<lambda>x. f x = f (foldl step b (b # xs))) (b # xs) = Some (foldl step b (b # xs))"
proof -
  have s: "foldl step b (b # xs) = foldl step b xs" by (simp add: step_def)
  note r = reduce_least [of f b xs, folded step_def]
  have mem: "foldl step b xs \<in> set (b # xs)"
  proof (cases "f (foldl step b xs) = f b")
    case True
    with r show ?thesis by simp
  next
    case False
    with r have "find (\<lambda>x. f x = f (foldl step b xs)) xs = Some (foldl step b xs)" by simp
    then show ?thesis by (auto simp: find_Some_iff)
  qed
  from r mem show ?thesis unfolding s by (auto split: if_splits)
qed

lemma find_filter: "find P (filter Q xs) = find (\<lambda>x. Q x \<and> P x) xs"
  by (induction xs) auto

lemma sort_desc_head:
  assumes "sort_key (\<lambda>k. - priority k) ks = s0 # rest"
  shows "s0 \<in> set ks \<and> (\<forall>k\<in>set ks. priority k \<le> priority s0)"
proof -
  have "set (sort_key (\<lambda>k. - priority k) ks) = set ks" by simp
  with assms have st: "set ks = insert s0 (set rest)" by simp
  have "sorted (map (\<lambda>k. - priority k) (sort_key (\<lambda>k. - priority k) ks))"
    by (rule sorted_sort_key)
  with assms have "\<forall>k\<in>set rest. - priority s0 \<le> - priority k" by simp
  with st show ?thesis by auto
qed

lemma prioritySelect_spec:
  assumes "ks \<noteq> []"
  shows "\<exists>k. prioritySelect ks = Some k \<and> k \<in> set ks
           \<and> (\<forall>k'\<in>set ks. priority k' \<le> priority k)
           \<and> (\<forall>k'\<in>set ks. priority k' = priority k \<longrightarrow> errorCount k \<le> errorCount k')
           \<and> find (\<lambda>k'. priority k' = priority k \<and> errorCount k' = errorCount k) ks = Some k"
proof -
  from assms have "sort_key (\<lambda>k. - priority k) ks \<noteq> []"
    by (metis length_0_conv length_sort)
  then obtain s0 rest where srt: "sort_key (\<lambda>k. - priority k) ks = s0 # rest"
    by (cases "sort_key (\<lambda>k. - priority k) ks") auto
  note hd = sort_desc_head [OF srt]
  let ?top = "filter (\<lambda>k. priority k = priority s0) ks"
  have top: "filter (\<lambda>k. priority k = priority s0) (sort_key (\<lambda>k. - priority k) ks) = ?top"
    using sort_key_stable [of "\<lambda>k. - priority k" "- priority s0" ks] by simp
  from hd have "s0 \<in> set ?top" by simp
  then obtain t0 trest where t: "?top = t0 # trest" by (cases ?top) auto
  let ?k = "foldl (\<lambda>best k. if errorCount k < errorCount best then k else best) t0 (t0 # trest)"
  note r = reduce_least_head [of errorCount t0 trest]
  note top' = top [unfolded srt, unfolded t]
  have sel: "prioritySelect ks = Some ?k"
    by (simp only: prioritySelect_def Let_def srt list.case top')
  from r have kin: "?k \<in> set ?top" unfolding t by blast
  then have kks: "?k \<in> set ks" and kp: "priority ?k = priority s0" by simp_all
  have mx: "\<forall>k'\<in>set ks. priority k' \<le> priority ?k" using hd kp by simp
  have mn: "\<forall>k'\<in>set ks. priority k' = priority ?k \<longrightarrow> errorCount ?k \<le> errorCount k'"
  proof (intro ballI impI)
    fix k' assume "k' \<in> set ks" "priority k' = priority ?k"
    then have "k' \<in> set (t0 # trest)" using kp t [symmetric] by simp
    with r show "errorCount ?k \<le> errorCount k'" by blast
  qed
  from r have "find (\<lambda>x. errorCount x = errorCount ?k) ?top = Some ?k" unfolding t by blast
  then have fnd: "find (\<lambda>k'. priority k' = priority ?k \<and> errorCount k' = errorCount ?k) ks = Some ?k"
    unfolding find_filter kp .
  from sel kks mx mn fnd show ?thesis by blast
qed

lemma leastUsedSelect_mem:
  assumes "ks \<noteq> []"
  shows "\<exists>k\<in>set ks. leastUsedSelect ks = Some k"
proof -
  from assms obtain k0 rest where ks: "ks = k0 # rest" by (cases ks) auto
  from reduce_least_head [of totalRequests k0 rest] show ?thesis
    unfolding ks by (simp add: leastUsedSelect_def del: foldl_Cons)
qed

text \<open>
  C5. On a non-empty list of active keys the priority strategy selects a key of the list
  whose priority is maximal; among the keys of that priority it has the least
  \<open>errorCount\<close>; and among those it is the earliest of the list as given. With priorities
  80, 80, 60 and error counts 3, 0, 0 the second key is selected.
\<close>

theorem selectKey_priority:
  assumes "keys \<noteq> []" and "\<forall>k\<in>set keys. status k = Active"
  shows "\<exists>k. fst (selectKey keys Priority c rr r) = Selected k \<and> k \<in> set keys
           \<and> (\<forall>k'\<in>set keys. priority k' \<le> priority k)
           \<and> (\<forall>k'\<in>set keys. priority k' = priority k \<longrightarrow> errorCount k \<le> errorCount k')
           \<and> find (\<lambda>k'. priority k' = priority k \<and> errorCount k' = errorCount k) keys = Some k"
proof -
  from assms(2) have act: "filter (\<lambda>k. status k = Active) keys = keys" by simp
  from prioritySelect_spec [OF assms(1)] obtain k where
    k: "prioritySelect keys = Some k" "k \<in> set keys"
       "\<forall>k'\<in>set keys. priority k' \<le> priority k"
       "\<forall>k'\<in>set keys. priority k' = priority k \<longrightarrow> errorCount k \<le> errorCount k'"
       "find (\<lambda>k'. priority k' = priority k \<and> errorCount k' = errorCount k) keys = Some k"
    by blast
  have "fst (selectKey keys Priority c rr r) = Selected k"
    using assms(1) k(1) by (simp add: selectKey_def act fromRead_def)
  with k show ?thesis by blast
qed

theorem selectKey_priority_witness:
  "[exKey ''k1'' ''chX'' Active 80 50 3, exKey ''k2'' ''chX'' Active 80 50 0,
    exKey ''k3'' ''chX'' Active 60 50 0] \<noteq> []
   \<and> map status [exKey ''k1'' ''chX'' Active 80 50 3, exKey ''k2'' ''chX'' Active 80 50 0,
                 exKey ''k3'' ''chX'' Active 60 50 0] = [Active, Active, Active]
   \<and> fst (selectKey [exKey ''k1'' ''chX'' Active 80 50 3, exKey ''k2'' ''chX'' Active 80 50 0,
                     exKey ''k3'' ''chX'' Active 60 50 0] Priority ''chX'' Map.empty 0)
       = Selected (exKey ''k2'' ''chX'' Active 80 50 0)"
proof -
  let ?ks = "[exKey ''k1'' ''chX'' Active 80 50 3, exKey ''k2'' ''chX'' Active 80 50 0,
              exKey ''k3'' ''chX'' Active 60 50 0]"
  have h1: "?ks \<noteq> []" by simp
  have h2: "\<forall>k\<in>set ?ks. status k = Active" by (simp add: exKey_def)
  from selectKey_priority [OF h1 h2, of "''chX''" Map.empty 0] obtain k where
    sel: "fst (selectKey ?ks Priority ''chX'' Map.empty 0) = Selected k"
    and fnd: "find (\<lambda>k'. priority k' = priority k \<and> errorCount k' = errorCount k) ?ks = Some k"
    and mx: "\<forall>k'\<in>set ?ks. priority k' \<le> priority k"
    and mn: "\<forall>k'\<in>set ?ks. priority k' = priority k \<longrightarrow> errorCount k \<le> errorCount k'"
    and mem: "k \<in> set ?ks"
    by blast
  from mem mx mn have "k = exKey ''k2'' ''chX'' Active 80 50 0"
    by (auto simp: exKey_def)
  with sel have r: "fst (selectKey ?ks Priority ''chX'' Map.empty 0)
                      = Selected (exKey ''k2'' ''chX'' Active 80 50 0)"
    by simp
  have h3: "map status ?ks = [Active, Active, Active]" by (simp add: exKey_def)
  from h1 h3 r show ?thesis by (intro conjI)
qed

text \<open>
  C9. For any list of keys, any strategy and any channel, with a draw in \<open>[0, 1)\<close>:
  \<open>selectKey\<close> returns \<^verbatim>\<open>null\<close> exactly when no key of the list is active, it never returns
  the \<^verbatim>\<open>undefined\<close> of an out-of-range read, and a key it returns is an active key of the
  list. This covers the weighted strategy with all weights 0 and with a weight scan that
  does not consume the draw.
\<close>

theorem selectKey_safe:
  assumes "0 \<le> r" and "r < 1"
  shows "(fst (selectKey keys strategy c rr r) = Null \<longleftrightarrow> (\<forall>k\<in>set keys. status k \<noteq> Active))
         \<and> fst (selectKey keys strategy c rr r) \<noteq> Undefined
         \<and> (\<forall>k. fst (selectKey keys strategy c rr r) = Selected k \<longrightarrow>
                k \<in> set keys \<and> status k = Active)"
proof (cases "filter (\<lambda>k. status k = Active) keys = []")
  case True
  then have "\<forall>k\<in>set keys. status k \<noteq> Active" by (simp add: filter_empty_conv)
  with True show ?thesis by (simp add: selectKey_def)
next
  case False
  let ?act = "filter (\<lambda>k. status k = Active) keys"
  from False have ex: "\<not> (\<forall>k\<in>set keys. status k \<noteq> Active)" by (simp add: filter_empty_conv)
  have "\<exists>k\<in>set ?act. fst (selectKey keys strategy c rr r) = Selected k"
  proof (cases strategy)
    case RoundRobin
    with False roundRobinSelect_mem [OF False, of c rr] show ?thesis
      by (auto simp: selectKey_def fromRead_def split: prod.splits)
  next
    case Weighted
    with False weightedSelect_mem [OF False assms] show ?thesis
      by (auto simp: selectKey_def fromRead_def)
  next
    case Priority
    from prioritySelect_spec [OF False] obtain k where
      "prioritySelect ?act = Some k" "k \<in> set ?act" by blast
    with False Priority show ?thesis
      by (auto simp: selectKey_def fromRead_def)
  next
    case LeastUsed
    with False leastUsedSelect_mem [OF False] show ?thesis
      by (auto simp: selectKey_def fromRead_def)
  qed
  then obtain k where "k \<in> set ?act" "fst (selectKey keys strategy c rr r) = Selected k"
    by blast
  with ex show ?thesis by auto
qed

theorem selectKey_safe_witness:
  "(0::real) \<le> 1 / 2 \<and> (1::real) / 2 < 1
   \<and> fst (selectKey [exKey ''k1'' ''chX'' Invalid 50 0 0, exKey ''k2'' ''chX'' Active 50 0 0,
                     exKey ''k3'' ''chX'' Active 50 0 0] Weighted ''chX'' Map.empty (1 / 2))
       = Selected (exKey ''k3'' ''chX'' Active 50 0 0)
   \<and> fst (selectKey [exKey ''k1'' ''chX'' Invalid 50 0 0] Weighted ''chX'' Map.empty (1 / 2))
       = Null"
proof -
  let ?ks = "[exKey ''k1'' ''chX'' Invalid 50 0 0, exKey ''k2'' ''chX'' Active 50 0 0,
              exKey ''k3'' ''chX'' Active 50 0 0]"
  have h1: "(0::real) \<le> 1 / 2" by simp
  have h2: "(1::real) / 2 < 1" by simp
  note s = selectKey_safe [OF h1 h2, of ?ks Weighted "''chX''" Map.empty]
  note n = selectKey_safe [OF h1 h2, of "[exKey ''k1'' ''chX'' Invalid 50 0 0]" Weighted
      "''chX''" Map.empty]
  have a: "fst (selectKey ?ks Weighted ''chX'' Map.empty (1 / 2))
       = Selected (exKey ''k3'' ''chX'' Active 50 0 0)"
    using s by (simp add: selectKey_def weightedSelect_def exKey_def elemAt_def fromRead_def)
  have b: "fst (selectKey [exKey ''k1'' ''chX'' Invalid 50 0 0] Weighted ''chX'' Map.empty (1 / 2))
       = Null"
    using n by (simp add: exKey_def)
  from h1 h2 a b show ?thesis by (intro conjI)
qed

text \<open>
  A weight scan that does not consume the draw, which needs a negative weight: the last
  active key is returned.
\<close>

lemma weightedSelect_fallback:
  "weightedScan [exKey ''k1'' ''chX'' Active 50 (- 3) 0, exKey ''k2'' ''chX'' Active 50 1 0]
      (0 * real_of_int (- 2)) = None
   \<and> fst (selectKey [exKey ''k1'' ''chX'' Active 50 (- 3) 0, exKey ''k2'' ''chX'' Active 50 1 0]
           Weighted ''chX'' Map.empty 0)
       = Selected (exKey ''k2'' ''chX'' Active 50 1 0)"
  by (simp add: selectKey_def weightedSelect_def exKey_def elemAt_def fromRead_def Let_def)

section \<open>Logs\<close>

text \<open>
  C7, as the code has it. \<open>getLogsForStats\<close> returns exactly the stored logs whose
  timestamp is at least \<open>since\<close>, in the order in which they are stored (it does not
  sort). \<open>addLog\<close> appends the log and, in the same mutation, keeps only the logs newer
  than \<open>now - R\<close>, where \<open>R\<close> is \<open>maxLogsRetention\<close>, or seven days when that setting is 0:
  every retained log \<open>l\<close> has \<open>now - timestamp l < R\<close>, every stored log older than the
  cut-off is dropped, and nothing else of the document changes.
\<close>

theorem logs_since_and_retention:
  "getLogsForStats since db = filter (\<lambda>l. since \<le> timestamp l) (logs db)
   \<and> set (getLogsForStats since db) = {l \<in> set (logs db). since \<le> timestamp l}
   \<and> subseq (getLogsForStats since db) (logs db)
   \<and> logs (addLog entry now db) =
       filter (\<lambda>l. now - (if maxLogsRetention (settings db) = 0 then 604800000
                           else maxLogsRetention (settings db)) < timestamp l)
         (logs db @ [entry])
   \<and> (\<forall>l\<in>set (logs (addLog entry now db)).
         now - timestamp l < (if maxLogsRetention (settings db) = 0 then 604800000
                              else maxLogsRetention (settings db)))
   \<and> (\<forall>l\<in>set (logs db @ [entry]).
         timestamp l < now - (if maxLogsRetention (settings db) = 0 then 604800000
                              else maxLogsRetention (settings db))
         \<longrightarrow> l \<notin> set (logs (addLog entry now db)))
   \<and> channels (addLog entry now db) = channels db
   \<and> apiKeys (addLog entry now db) = apiKeys db
   \<and> settings (addLog entry now db) = settings db"
proof -
  let ?R = "if maxLogsRetention (settings db) = 0 then 604800000
            else maxLogsRetention (settings db)"
  have since: "getLogsForStats since db = filter (\<lambda>l. since \<le> timestamp l) (logs db)"
    by (simp add: getLogsForStats_def)
  have members: "set (getLogsForStats since db) = {l \<in> set (logs db). since \<le> timestamp l}"
    unfolding since by auto
  have order: "subseq (getLogsForStats since db) (logs db)"
    unfolding since by simp
  have kept: "logs (addLog entry now db)
                = filter (\<lambda>l. now - ?R < timestamp l) (logs db @ [entry])"
    by (simp add: addLog_def Let_def)
  have young: "\<forall>l\<in>set (logs (addLog entry now db)). now - timestamp l < ?R"
    unfolding kept by auto
  have dropped: "\<forall>l\<in>set (logs db @ [entry]).
                   timestamp l < now - ?R \<longrightarrow> l \<notin> set (logs (addLog entry now db))"
    unfolding kept by auto
  have frame: "channels (addLog entry now db) = channels db"
    "apiKeys (addLog entry now db) = apiKeys db"
    "settings (addLog entry now db) = settings db"
    by (simp_all add: addLog_def Let_def)
  from since members order kept young dropped frame show ?thesis
    by (intro conjI)
qed

theorem logs_since_and_retention_witness:
  "getLogsForStats 1500 (exDb [] [] [exLog ''l1'' 1000, exLog ''l2'' 100000000])
    = [exLog ''l2'' 100000000]
   \<and> logs (addLog (exLog ''l3'' 700000000) 700000000
         (exDb [] [] [exLog ''l1'' 1000, exLog ''l2'' 100000000]))
    = [exLog ''l2'' 100000000, exLog ''l3'' 700000000]
   \<and> set (getLogsForStats 1500 (exDb [] [] [exLog ''l1'' 1000, exLog ''l2'' 100000000]))
       = {exLog ''l2'' 100000000}"
  using logs_since_and_retention [where since=1500 and entry="exLog ''l3'' 700000000"
      and now=700000000 and db="exDb [] [] [exLog ''l1'' 1000, exLog ''l2'' 100000000]"]
  by (simp add: getLogsForStats_def addLog_def exDb_def exLog_def Let_def)

text \<open>
  Two relays logged one after the other are stored oldest first, and \<open>getLogsForStats\<close>
  returns them so: its result is not sorted by descending timestamp.
\<close>

theorem logsSince_not_sorted_counterexample:
  "getLogsForStats 0
      (addLog (exLog ''l2'' 2000) 2000 (addLog (exLog ''l1'' 1000) 1000 (exDb [] [] [])))
    = [exLog ''l1'' 1000, exLog ''l2'' 2000]
   \<and> \<not> sorted (rev (map timestamp (getLogsForStats 0
      (addLog (exLog ''l2'' 2000) 2000 (addLog (exLog ''l1'' 1000) 1000 (exDb [] [] []))))))"
  by (simp add: getLogsForStats_def addLog_def exDb_def exLog_def Let_def)

section \<open>Model resolution\<close>

lemma table_eq: "specModelTable = MODEL_CHANNEL_MAP"
  by (simp add: specModelTable_def MODEL_CHANNEL_MAP_def)

lemma longest_fold:
  fixes tb :: "(string \<times> 'a) list"
  defines "step \<equiv> (\<lambda>m best entry.
              if prefix (fst entry) m
                 \<and> (case best of None \<Rightarrow> True | Some b \<Rightarrow> length (fst b) < length (fst entry))
              then Some entry else best)"
  shows "(foldl (step m) best tb = None \<longleftrightarrow> best = None \<and> (\<forall>e\<in>set tb. \<not> prefix (fst e) m))
         \<and> (\<forall>e. foldl (step m) best tb = Some e \<longrightarrow>
                best = Some e \<or> (e \<in> set tb \<and> prefix (fst e) m))"
proof (induction tb arbitrary: best)
  case Nil
  then show ?case by simp
next
  case (Cons a tb)
  show ?case
    using Cons.IH [of "step m best a"]
    by (auto simp: step_def split: if_splits option.splits)
qed

lemma longestPrefixMatch_None:
  "longestPrefixMatch m tb = None \<longleftrightarrow> (\<forall>e\<in>set tb. \<not> prefix (fst e) m)"
  using longest_fold [of m None tb] by (simp add: longestPrefixMatch_def)

lemma longestPrefixMatch_Some:
  "longestPrefixMatch m tb = Some e \<Longrightarrow> e \<in> set tb \<and> prefix (fst e) m"
  using longest_fold [of m None tb] by (simp add: longestPrefixMatch_def)

lemma prefix_take2:
  assumes "prefix p m" "2 \<le> length p"
  shows "take 2 m = take 2 p"
proof -
  from assms(1) obtain s where "m = p @ s" by (auto simp: prefix_def)
  with assms(2) show ?thesis by simp
qed

lemma table_family:
  "\<forall>e\<in>set MODEL_CHANNEL_MAP. 2 \<le> length (fst e) \<and> snd e = familyTypes (take 2 (fst e))"
  by (simp add: MODEL_CHANNEL_MAP_def familyTypes_def)

lemma entry_types:
  assumes "e \<in> set MODEL_CHANNEL_MAP" "prefix (fst e) m"
  shows "snd e = familyTypes (take 2 m)" "snd e \<noteq> []"
proof -
  from table_family assms(1) have l: "2 \<le> length (fst e)"
    and f: "snd e = familyTypes (take 2 (fst e))" by blast+
  from prefix_take2 [OF assms(2) l] f show "snd e = familyTypes (take 2 m)" by simp
  then show "snd e \<noteq> []" by (simp add: familyTypes_def)
qed

lemma matchingTypes_cases:
  "matchingTypes m =
     (if \<exists>e\<in>set MODEL_CHANNEL_MAP. prefix (fst e) m then familyTypes (take 2 m)
      else [OpenAI, OpenAICompatible])"
proof (cases "find (\<lambda>entry. prefix (fst entry) m) MODEL_CHANNEL_MAP")
  case None
  then have "\<not> (\<exists>e\<in>set MODEL_CHANNEL_MAP. prefix (fst e) m)"
    by (auto simp: find_None_iff)
  with None show ?thesis by (simp add: matchingTypes_def)
next
  case (Some e)
  then have e: "e \<in> set MODEL_CHANNEL_MAP" "prefix (fst e) m"
    by (auto simp: find_Some_iff)
  from entry_types [OF e] Some e show ?thesis
    by (auto simp: matchingTypes_def)
qed

lemma specTypes_cases:
  "specTypes m =
     (if \<exists>e\<in>set MODEL_CHANNEL_MAP. prefix (fst e) m then familyTypes (take 2 m)
      else [OpenAI, OpenAICompatible])"
proof (cases "longestPrefixMatch m MODEL_CHANNEL_MAP")
  case None
  then have "\<not> (\<exists>e\<in>set MODEL_CHANNEL_MAP. prefix (fst e) m)"
    by (simp add: longestPrefixMatch_None)
  with None show ?thesis by (simp add: specTypes_def table_eq)
next
  case (Some e)
  from longestPrefixMatch_Some [OF Some] have e: "e \<in> set MODEL_CHANNEL_MAP" "prefix (fst e) m"
    by simp_all
  from entry_types [OF e] Some e show ?thesis
    by (auto simp: specTypes_def table_eq)
qed

text \<open>
  C8, as the code has it. For every model string the types found by the first-match scan
  of the table are the types of the longest table entry that is a prefix of the model
  (the OpenAI pair when there is none). A model starting with \<^verbatim>\<open>gpt-\<close> or \<^verbatim>\<open>o1\<close>
  resolves to the OpenAI pair; a model that starts with one of the Claude entries of the
  table resolves to Anthropic, one that starts with a Gemini entry to Gemini; a model
  that no entry is a prefix of resolves to the OpenAI pair.
\<close>

theorem matchingTypes_refines_longest_prefix:
  "matchingTypes m = specTypes m
   \<and> (prefix ''gpt-'' m \<or> prefix ''o1'' m \<longrightarrow> matchingTypes m = [OpenAI, OpenAICompatible])
   \<and> ((\<exists>p\<in>set [''claude-3-opus'', ''claude-3-sonnet'', ''claude-3-haiku'',
                ''claude-3.5-sonnet'', ''claude-3-5-sonnet'']. prefix p m)
        \<longrightarrow> matchingTypes m = [Anthropic])
   \<and> ((\<exists>p\<in>set [''gemini-pro'', ''gemini-1.5-pro'', ''gemini-1.5-flash'']. prefix p m)
        \<longrightarrow> matchingTypes m = [Gemini])
   \<and> ((\<forall>e\<in>set MODEL_CHANNEL_MAP. \<not> prefix (fst e) m)
        \<longrightarrow> matchingTypes m = [OpenAI, OpenAICompatible])"
proof (intro conjI impI)
  show "matchingTypes m = specTypes m"
    by (simp only: matchingTypes_cases specTypes_cases)
next
  assume "prefix ''gpt-'' m \<or> prefix ''o1'' m"
  then have "take 2 m = ''gp'' \<or> take 2 m = ''o1''"
    using prefix_take2 [of "''gpt-''" m] prefix_take2 [of "''o1''" m] by auto
  then show "matchingTypes m = [OpenAI, OpenAICompatible]"
    by (auto simp: matchingTypes_cases familyTypes_def)
next
  assume "\<exists>p\<in>set [''claude-3-opus'', ''claude-3-sonnet'', ''claude-3-haiku'',
                ''claude-3.5-sonnet'', ''claude-3-5-sonnet'']. prefix p m"
  then obtain p where p: "p \<in> set [''claude-3-opus'', ''claude-3-sonnet'', ''claude-3-haiku'',
                ''claude-3.5-sonnet'', ''claude-3-5-sonnet'']" "prefix p m" by blast
  then have e: "(p, [Anthropic]) \<in> set MODEL_CHANNEL_MAP"
    by (auto simp: MODEL_CHANNEL_MAP_def)
  from entry_types(1) [OF e] p(2) have f: "familyTypes (take 2 m) = [Anthropic]" by simp
  from e p(2) have "\<exists>e\<in>set MODEL_CHANNEL_MAP. prefix (fst e) m" by force
  with f show "matchingTypes m = [Anthropic]"
    by (simp add: matchingTypes_cases)
next
  assume "\<exists>p\<in>set [''gemini-pro'', ''gemini-1.5-pro'', ''gemini-1.5-flash'']. prefix p m"
  then obtain p where p: "p \<in> set [''gemini-pro'', ''gemini-1.5-pro'', ''gemini-1.5-flash'']"
    "prefix p m" by blast
  then have e: "(p, [Gemini]) \<in> set MODEL_CHANNEL_MAP"
    by (auto simp: MODEL_CHANNEL_MAP_def)
  from entry_types(1) [OF e] p(2) have f: "familyTypes (take 2 m) = [Gemini]" by simp
  from e p(2) have "\<exists>e\<in>set MODEL_CHANNEL_MAP. prefix (fst e) m" by force
  with f show "matchingTypes m = [Gemini]"
    by (simp add: matchingTypes_cases)
next
  assume "\<forall>e\<in>set MODEL_CHANNEL_MAP. \<not> prefix (fst e) m"
  then show "matchingTypes m = [OpenAI, OpenAICompatible]"
    by (simp add: matchingTypes_cases)
qed

theorem matchingTypes_refines_longest_prefix_witness:
  "matchingTypes ''gpt-4o-mini-2024'' = [OpenAI, OpenAICompatible]
   \<and> specTypes ''gpt-4o-mini-2024'' = [OpenAI, OpenAICompatible]
   \<and> longestPrefixMatch ''gpt-4o-mini-2024'' specModelTable
       = Some (''gpt-4o-mini'', [OpenAI, OpenAICompatible])
   \<and> find (\<lambda>entry. prefix (fst entry) ''gpt-4o-mini-2024'') MODEL_CHANNEL_MAP
       = Some (''gpt-4'', [OpenAI, OpenAICompatible])
   \<and> matchingTypes ''claude-3-5-sonnet-20241022'' = [Anthropic]
   \<and> matchingTypes ''gemini-1.5-flash-8b'' = [Gemini]
   \<and> matchingTypes ''text-embedding-ada-002'' = [OpenAI, OpenAICompatible]"
proof -
  note a = matchingTypes_refines_longest_prefix [of "''gpt-4o-mini-2024''"]
  note b = matchingTypes_refines_longest_prefix [of "''claude-3-5-sonnet-20241022''"]
  note c = matchingTypes_refines_longest_prefix [of "''gemini-1.5-flash-8b''"]
  note d = matchingTypes_refines_longest_prefix [of "''text-embedding-ada-002''"]
  have pa: "prefix ''gpt-'' ''gpt-4o-mini-2024''" by simp
  from a pa have 1: "matchingTypes ''gpt-4o-mini-2024'' = [OpenAI, OpenAICompatible]"
    by blast
  from a 1 have s1: "specTypes ''gpt-4o-mini-2024'' = [OpenAI, OpenAICompatible]"
    by metis
  have 2: "longestPrefixMatch ''gpt-4o-mini-2024'' specModelTable
       = Some (''gpt-4o-mini'', [OpenAI, OpenAICompatible])"
    by (simp add: longestPrefixMatch_def specModelTable_def)
  have 3: "find (\<lambda>entry. prefix (fst entry) ''gpt-4o-mini-2024'') MODEL_CHANNEL_MAP
       = Some (''gpt-4'', [OpenAI, OpenAICompatible])"
    by (simp add: MODEL_CHANNEL_MAP_def)
  have pb: "\<exists>p\<in>set [''claude-3-opus'', ''claude-3-sonnet'', ''claude-3-haiku'',
                ''claude-3.5-sonnet'', ''claude-3-5-sonnet'']. prefix p ''claude-3-5-sonnet-20241022''"
    by simp
  from b pb have 4: "matchingTypes ''claude-3-5-sonnet-20241022'' = [Anthropic]"
    by blast
  have pc: "\<exists>p\<in>set [''gemini-pro'', ''gemini-1.5-pro'', ''gemini-1.5-flash''].
              prefix p ''gemini-1.5-flash-8b''"
    by simp
  from c pc have 5: "matchingTypes ''gemini-1.5-flash-8b'' = [Gemini]"
    by blast
  have pd: "\<forall>e\<in>set MODEL_CHANNEL_MAP. \<not> prefix (fst e) ''text-embedding-ada-002''"
    by (simp add: MODEL_CHANNEL_MAP_def)
  from d pd have 6: "matchingTypes ''text-embedding-ada-002'' = [OpenAI, OpenAICompatible]"
    by blast
  from 1 s1 2 3 4 5 6 show ?thesis by (intro conjI)
qed

text \<open>
  A model of the \<^verbatim>\<open>claude-\<close> family that extends no table entry takes the default: it
  resolves to the OpenAI pair, not to Anthropic.
\<close>

theorem claude_prefix_counterexample:
  "prefix ''claude-'' ''claude-2.1'' \<and> matchingTypes ''claude-2.1'' = [OpenAI, OpenAICompatible]
   \<and> matchingTypes ''claude-2.1'' \<noteq> [Anthropic]"
  by (simp add: matchingTypes_def MODEL_CHANNEL_MAP_def)

section \<open>Probe classification\<close>

lemma plainProbe_answers:
  "plainProbe (upstreamAnswers out) req kid now =
     (case out of
        Rejected e \<Rightarrow> caught kid e now
      | Resolved res \<Rightarrow>
          if ok (hStatus res) then activeResult kid None now
          else handleErrorResponse kid res now)"
  by (simp add: plainProbe_def upstreamAnswers_def)

lemma checkKey_plain:
  assumes "\<not> balanceProbe channel"
  shows "checkKey (upstreamAnswers out) channel k now =
     (case out of
        Rejected e \<Rightarrow> caught (kId k) e now
      | Resolved res \<Rightarrow>
          if ok (hStatus res) then activeResult (kId k) None now
          else handleErrorResponse (kId k) res now)"
  using assms
  by (cases "cType channel"; cases "testMethod channel")
     (simp_all add: checkKey_def checkOpenAI_def checkAnthropic_def checkGemini_def
        plainProbe_answers balanceProbe_def Let_def)

lemma checkKey_balance:
  assumes "balanceProbe channel"
  shows "checkKey (upstreamAnswers out) channel k now =
     (case out of
        Rejected e \<Rightarrow> caught (kId k) e now
      | Resolved res \<Rightarrow>
          if ok (hStatus res) then
            (case hTotalAvailable res of
               Inl e \<Rightarrow> caught (kId k) e now
             | Inr bal \<Rightarrow> activeResult (kId k) bal now)
          else handleErrorResponse (kId k) res now)"
  using assms
  by (cases "cType channel")
     (simp_all add: checkKey_def checkOpenAI_def balanceProbe_def Let_def upstreamAnswers_def)

text \<open>
  C2, as the code has it. Whatever the channel and the key, when the upstream settles the
  probe with \<open>out\<close> the checker reports one of active, invalid and quota-exceeded, never
  disabled or unknown. A rejected \<^verbatim>\<open>fetch\<close> gives invalid with the message of the error
  (\<^verbatim>\<open>Connection failed\<close> for a thrown value that is no error object). A 401 or 403 gives
  invalid, a 429 quota-exceeded, any other status outside 2xx invalid, each with the
  error \<^verbatim>\<open>HTTP {code}: {first 200 characters of the body}\<close>, or just \<^verbatim>\<open>HTTP {code}\<close> when
  the body cannot be read. A 2xx gives active, except on the balance probe of an OpenAI
  or OpenAI-compatible channel: there the checker reads \<^verbatim>\<open>total_available\<close> from the
  parsed body, and a 2xx on which that throws, because the body is not JSON or because it
  is the JSON value \<^verbatim>\<open>null\<close>, gives invalid with the message of the thrown error;
  otherwise it gives active with the balance read, if any.
\<close>

theorem checkKey_classification:
  "rcStatus (checkKey (upstreamAnswers out) channel k now) \<in> {Active, Invalid, QuotaExceeded}
   \<and> (\<forall>e. out = Rejected e \<longrightarrow>
         rcStatus (checkKey (upstreamAnswers out) channel k now) = Invalid
         \<and> rcError (checkKey (upstreamAnswers out) channel k now)
             = Some (case e of ErrorObject msg \<Rightarrow> msg | OtherValue \<Rightarrow> ''Connection failed''))
   \<and> (\<forall>res. out = Resolved res \<longrightarrow>
         (hStatus res = 401 \<or> hStatus res = 403 \<longrightarrow>
            rcStatus (checkKey (upstreamAnswers out) channel k now) = Invalid)
         \<and> (hStatus res = 429 \<longrightarrow>
            rcStatus (checkKey (upstreamAnswers out) channel k now) = QuotaExceeded)
         \<and> (ok (hStatus res) \<and> \<not> balanceProbe channel \<longrightarrow>
            rcStatus (checkKey (upstreamAnswers out) channel k now) = Active
            \<and> rcError (checkKey (upstreamAnswers out) channel k now) = None)
         \<and> (\<forall>bal. ok (hStatus res) \<and> balanceProbe channel \<and> hTotalAvailable res = Inr bal \<longrightarrow>
            rcStatus (checkKey (upstreamAnswers out) channel k now) = Active
            \<and> rcBalance (checkKey (upstreamAnswers out) channel k now) = bal
            \<and> rcError (checkKey (upstreamAnswers out) channel k now) = None)
         \<and> (\<forall>e. ok (hStatus res) \<and> balanceProbe channel \<and> hTotalAvailable res = Inl e \<longrightarrow>
            rcStatus (checkKey (upstreamAnswers out) channel k now) = Invalid
            \<and> rcError (checkKey (upstreamAnswers out) channel k now)
                = Some (case e of ErrorObject msg \<Rightarrow> msg | OtherValue \<Rightarrow> ''Connection failed''))
         \<and> (\<not> ok (hStatus res) \<and> hStatus res \<noteq> 429 \<longrightarrow>
            rcStatus (checkKey (upstreamAnswers out) channel k now) = Invalid)
         \<and> (\<forall>body. \<not> ok (hStatus res) \<and> hText res = Inr body \<longrightarrow>
            rcError (checkKey (upstreamAnswers out) channel k now)
              = Some (''HTTP '' @ decimal (hStatus res) @ '': '' @ take 200 body))
         \<and> (\<forall>e. \<not> ok (hStatus res) \<and> hText res = Inl e \<longrightarrow>
            rcError (checkKey (upstreamAnswers out) channel k now)
              = Some (''HTTP '' @ decimal (hStatus res))))"
proof (cases "balanceProbe channel")
  case True
  show ?thesis
    unfolding checkKey_balance [OF True]
    by (cases out)
       (auto simp: caught_def activeResult_def handleErrorResponse_def ok_def Let_def True
          split: sum.splits)
next
  case False
  show ?thesis
    unfolding checkKey_plain [OF False]
    by (cases out)
       (auto simp: caught_def activeResult_def handleErrorResponse_def ok_def Let_def False
          split: sum.splits)
qed

theorem checkKey_classification_witness:
  "rcStatus (checkKey (upstreamAnswers (Resolved \<lparr>hStatus = 429, hText = Inr ''slow down'',
       hTotalAvailable = Inl OtherValue\<rparr>))
     (exChannel ''chX'' Anthropic Chat RoundRobin) (exKey ''k1'' ''chX'' Unknown 50 50 0) 5000)
     = QuotaExceeded
   \<and> rcError (checkKey (upstreamAnswers (Resolved \<lparr>hStatus = 500, hText = Inr ''oops'',
       hTotalAvailable = Inl OtherValue\<rparr>))
     (exChannel ''chX'' Gemini Models RoundRobin) (exKey ''k1'' ''chX'' Unknown 50 50 0) 5000)
     = Some ''HTTP 500: oops''
   \<and> rcStatus (checkKey (upstreamAnswers (Resolved \<lparr>hStatus = 200, hText = Inr ''{}'',
       hTotalAvailable = Inr (Some 12)\<rparr>))
     (exChannel ''chX'' OpenAI Balance RoundRobin) (exKey ''k1'' ''chX'' Unknown 50 50 0) 5000)
     = Active
   \<and> rcStatus (checkKey (upstreamAnswers (Rejected (ErrorObject ''fetch failed'')))
     (exChannel ''chX'' OpenAI Chat RoundRobin) (exKey ''k1'' ''chX'' Unknown 50 50 0) 5000)
     = Invalid"
proof -
  let ?k = "exKey ''k1'' ''chX'' Unknown 50 50 0"
  note a = checkKey_classification [of "Resolved \<lparr>hStatus = 429, hText = Inr ''slow down'',
       hTotalAvailable = Inl OtherValue\<rparr>" "exChannel ''chX'' Anthropic Chat RoundRobin" ?k 5000]
  note b = checkKey_classification [of "Resolved \<lparr>hStatus = 500, hText = Inr ''oops'',
       hTotalAvailable = Inl OtherValue\<rparr>" "exChannel ''chX'' Gemini Models RoundRobin" ?k 5000]
  note c = checkKey_classification [of "Resolved \<lparr>hStatus = 200, hText = Inr ''{}'',
       hTotalAvailable = Inr (Some 12)\<rparr>" "exChannel ''chX'' OpenAI Balance RoundRobin" ?k 5000]
  note d = checkKey_classification [of "Rejected (ErrorObject ''fetch failed'')"
       "exChannel ''chX'' OpenAI Chat RoundRobin" ?k 5000]
  have 1: "rcStatus (checkKey (upstreamAnswers (Resolved \<lparr>hStatus = 429, hText = Inr ''slow down'',
       hTotalAvailable = Inl OtherValue\<rparr>))
     (exChannel ''chX'' Anthropic Chat RoundRobin) ?k 5000) = QuotaExceeded"
    using a by simp
  have 2: "rcError (checkKey (upstreamAnswers (Resolved \<lparr>hStatus = 500, hText = Inr ''oops'',
       hTotalAvailable = Inl OtherValue\<rparr>))
     (exChannel ''chX'' Gemini Models RoundRobin) ?k 5000) = Some ''HTTP 500: oops''"
    using b by (simp add: ok_def decimal.simps digit_def)
  have 3: "rcStatus (checkKey (upstreamAnswers (Resolved \<lparr>hStatus = 200, hText = Inr ''{}'',
       hTotalAvailable = Inr (Some 12)\<rparr>))
     (exChannel ''chX'' OpenAI Balance RoundRobin) ?k 5000) = Active"
    using c by (simp add: ok_def balanceProbe_def exChannel_def)
  have 4: "rcStatus (checkKey (upstreamAnswers (Rejected (ErrorObject ''fetch failed'')))
     (exChannel ''chX'' OpenAI Chat RoundRobin) ?k 5000) = Invalid"
    using d by simp
  from 1 2 3 4 show ?thesis by (intro conjI)
qed

text \<open>
  The balance probe of an OpenAI channel answered by status 200 and a body that is not
  JSON: the reported status is invalid, not active.
\<close>

theorem checkKey_2xx_invalid_counterexample:
  "ok 200
   \<and> rcStatus (checkKey (upstreamAnswers (Resolved \<lparr>hStatus = 200, hText = Inr ''<html>'',
         hTotalAvailable = Inl (ErrorObject ''Unexpected token < in JSON at position 0'')\<rparr>))
       (exChannel ''chX'' OpenAI Balance RoundRobin) (exKey ''k1'' ''chX'' Unknown 50 50 0) 5000)
     = Invalid
   \<and> rcStatus (checkKey (upstreamAnswers (Resolved \<lparr>hStatus = 200, hText = Inr ''<html>'',
         hTotalAvailable = Inl (ErrorObject ''Unexpected token < in JSON at position 0'')\<rparr>))
       (exChannel ''chX'' OpenAI Balance RoundRobin) (exKey ''k1'' ''chX'' Unknown 50 50 0) 5000)
     \<noteq> Active"
  by (simp add: checkKey_def checkOpenAI_def upstreamAnswers_def exChannel_def exKey_def
      ok_def caught_def Let_def)

text \<open>
  The same probe answered by status 200 and the body \<^verbatim>\<open>null\<close>: the body parses, the read
  of \<^verbatim>\<open>total_available\<close> throws a type error, and the reported status is invalid.
\<close>

lemma checkKey_null_balance_body:
  "rcStatus (checkKey (upstreamAnswers (Resolved \<lparr>hStatus = 200, hText = Inr ''null'',
         hTotalAvailable = Inl (ErrorObject ''Cannot read properties of null'')\<rparr>))
       (exChannel ''chX'' OpenAI Balance RoundRobin) (exKey ''k1'' ''chX'' Unknown 50 50 0) 5000)
     = Invalid
   \<and> rcError (checkKey (upstreamAnswers (Resolved \<lparr>hStatus = 200, hText = Inr ''null'',
         hTotalAvailable = Inl (ErrorObject ''Cannot read properties of null'')\<rparr>))
       (exChannel ''chX'' OpenAI Balance RoundRobin) (exKey ''k1'' ''chX'' Unknown 50 50 0) 5000)
     = Some ''Cannot read properties of null''"
  by (simp add: checkKey_def checkOpenAI_def upstreamAnswers_def exChannel_def exKey_def
      ok_def caught_def Let_def)

section \<open>Stored keys under updates\<close>

lemma find_findIndex:
  "find P xs = Some x \<Longrightarrow> \<exists>i. findIndex P xs = Some i \<and> xs ! i = x"
proof (induction xs)
  case Nil
  then show ?case by simp
next
  case (Cons a xs)
  show ?case
  proof (cases "P a")
    case True
    with Cons.prems show ?thesis by simp
  next
    case False
    with Cons.prems have "find P xs = Some x" by simp
    from Cons.IH [OF this] obtain i where "findIndex P xs = Some i" "xs ! i = x"
      by blast
    with False show ?thesis by simp
  qed
qed

lemma find_update_same:
  "findIndex P xs = Some n \<Longrightarrow> P y \<Longrightarrow> find P (xs[n := y]) = Some y"
proof (induction xs arbitrary: n)
  case Nil
  then show ?case by simp
next
  case (Cons a xs)
  show ?case
  proof (cases "P a")
    case True
    with Cons.prems show ?thesis by simp
  next
    case False
    with Cons.prems obtain j where j: "findIndex P xs = Some j" "n = Suc j" by auto
    from Cons.IH [OF j(1) Cons.prems(2)] j(2) False show ?thesis by simp
  qed
qed

lemma find_update_other:
  "n < length xs \<Longrightarrow> \<not> Q (xs ! n) \<Longrightarrow> \<not> Q y \<Longrightarrow> find Q (xs[n := y]) = find Q xs"
proof (induction xs arbitrary: n)
  case Nil
  then show ?case by simp
next
  case (Cons a xs)
  then show ?case by (cases n) auto
qed

lemma kId_applyUpdates: "pId u = None \<Longrightarrow> kId (applyUpdates s u now) = kId s"
  by (simp add: applyUpdates_def spread_def)

text \<open>An update that does not rename the key rewrites the stored key found by its id.\<close>

lemma getApiKeyById_update_same:
  assumes "getApiKeyById i db = Some s" and "pId u = None"
  shows "getApiKeyById i (snd (updateApiKey i u now db)) = Some (applyUpdates s u now)"
proof -
  from assms(1) have f: "find (\<lambda>k. kId k = i) (apiKeys db) = Some s"
    by (simp add: getApiKeyById_def)
  from find_findIndex [OF f] obtain n where
    n: "findIndex (\<lambda>k. kId k = i) (apiKeys db) = Some n" "apiKeys db ! n = s"
    by blast
  from findIndex_Some [OF n(1)] n(2) have "kId s = i" by simp
  with assms(2) have "kId (applyUpdates s u now) = i" by (simp add: kId_applyUpdates)
  from find_update_same [OF n(1), of "applyUpdates s u now"] this n show ?thesis
    by (simp add: getApiKeyById_def updateApiKey_def Let_def)
qed

lemma getApiKeyById_update_other:
  assumes "j \<noteq> i" and "pId u = None"
  shows "getApiKeyById j (snd (updateApiKey i u now db)) = getApiKeyById j db"
proof (cases "findIndex (\<lambda>k. kId k = i) (apiKeys db)")
  case None
  then show ?thesis by (simp add: updateApiKey_def)
next
  case (Some n)
  from findIndex_Some [OF Some] have n: "n < length (apiKeys db)" "kId (apiKeys db ! n) = i"
    by simp_all
  from n(2) assms have a: "kId (apiKeys db ! n) \<noteq> j"
    and b: "kId (applyUpdates (apiKeys db ! n) u now) \<noteq> j"
    by (simp_all add: kId_applyUpdates)
  from find_update_other [of n "apiKeys db" "\<lambda>k. kId k = j", OF n(1) a b] Some show ?thesis
    by (simp add: getApiKeyById_def updateApiKey_def Let_def)
qed


lemma pId_probeUpdates: "pId (probeUpdates result k) = None"
  by (simp add: probeUpdates_def noUpdates_def)



lemma applyUpdates_probe:
  "applyUpdates s (probeUpdates (checkKey (envFetch env) channel k (envChecked env)) k)
     (envUpdated env) = probed env channel k s"
  by (simp add: applyUpdates_def probeUpdates_def noUpdates_def spread_def probed_def)



lemma checkedAt_plainProbe: "checkedAt (plainProbe fetch req kid now) = now"
  by (simp add: plainProbe_def caught_def activeResult_def handleErrorResponse_def Let_def
      split: fetchOutcome.splits)

lemma checkedAt_checkOpenAI: "checkedAt (checkOpenAI fetch channel k now) = now"
  by (simp add: checkOpenAI_def checkedAt_plainProbe caught_def activeResult_def
      handleErrorResponse_def Let_def split: fetchOutcome.splits sum.splits)

lemma checkedAt_checkKey: "checkedAt (checkKey fetch channel k now) = now"
  by (cases "cType channel")
     (simp_all add: checkKey_def checkedAt_checkOpenAI checkAnthropic_def checkGemini_def
        checkedAt_plainProbe Let_def)

section \<open>Probe bookkeeping\<close>

lemma update_first_as_map:
  "distinct (map f xs) \<Longrightarrow>
     (case findIndex (\<lambda>x. f x = i) xs of None \<Rightarrow> xs | Some n \<Rightarrow> xs[n := g (xs ! n)])
       = map (\<lambda>x. if f x = i then g x else x) xs"
proof (induction xs)
  case Nil
  then show ?case by simp
next
  case (Cons a xs)
  show ?case
  proof (cases "f a = i")
    case True
    with Cons.prems have "\<forall>x\<in>set xs. f x \<noteq> i" by (auto simp: image_iff)
    then have "map (\<lambda>x. if f x = i then g x else x) xs = xs"
      by (simp add: map_idI)
    with True show ?thesis by simp
  next
    case False
    from Cons.prems have "distinct (map f xs)" by simp
    from Cons.IH [OF this] False show ?thesis
      by (cases "findIndex (\<lambda>x. f x = i) xs") auto
  qed
qed

lemma apiKeys_updateApiKey_map:
  assumes "distinct (map kId (apiKeys db))"
  shows "apiKeys (snd (updateApiKey i u now db))
           = map (\<lambda>x. if kId x = i then applyUpdates x u now else x) (apiKeys db)"
  using update_first_as_map [OF assms, where i=i and g="\<lambda>x. applyUpdates x u now"]
  by (cases "findIndex (\<lambda>k. kId k = i) (apiKeys db)") (simp_all add: updateApiKey_def Let_def)

lemma channels_updateApiKey: "channels (snd (updateApiKey i u now db)) = channels db"
  by (simp add: updateApiKey_def Let_def split: option.splits)

lemma kId_probed: "kId (probed env channel k s) = kId s"
  by (simp add: probed_def)

lemma channelId_probed: "channelId (probed env channel k s) = channelId s"
  by (simp add: probed_def)

lemma probeAndUpdate_quiet:
  assumes "envMeanwhile env = []" and "distinct (map kId (apiKeys db))"
  shows "apiKeys (probeAndUpdate env channel k db)
           = map (\<lambda>x. if kId x = kId k then probed env channel k x else x) (apiKeys db)"
  using assms apiKeys_updateApiKey_map [OF assms(2)]
  by (simp add: probeAndUpdate_def Let_def applyUpdates_probe)

lemma checkChannelKeys_quiet:
  assumes quiet: "\<forall>c i. envMeanwhile (envOf c i) = [] \<and> envPause (envOf c i) = []"
  shows "distinct (map kId (apiKeys db)) \<Longrightarrow> distinct (map kId ks) \<Longrightarrow>
         set ks \<subseteq> set (apiKeys db) \<Longrightarrow>
         apiKeys (checkChannelKeys envOf channel ks db)
           = map (\<lambda>x. if x \<in> set ks then probed (envOf (cId channel) (kId x)) channel x x else x)
               (apiKeys db)"
proof (induction ks arbitrary: db)
  case Nil
  then show ?case by simp
next
  case (Cons k ks)
  let ?env = "envOf (cId channel) (kId k)"
  let ?P = "\<lambda>x. probed (envOf (cId channel) (kId x)) channel x x"
  let ?h = "\<lambda>x. if kId x = kId k then probed ?env channel k x else x"
  let ?db1 = "commit (envPause ?env) (probeAndUpdate ?env channel k db)"
  from quiet have q: "envMeanwhile ?env = []" "envPause ?env = []" by simp_all
  have keys1: "apiKeys ?db1 = map ?h (apiKeys db)"
    using probeAndUpdate_quiet [OF q(1) Cons.prems(1)] q(2) by simp
  have kin: "k \<in> set (apiKeys db)" using Cons.prems(3) by simp
  have only_k: "kId x = kId k \<longleftrightarrow> x = k" if "x \<in> set (apiKeys db)" for x
    using that kin Cons.prems(1) by (auto simp: distinct_map inj_on_def)
  have ids1: "map kId (apiKeys ?db1) = map kId (apiKeys db)"
    unfolding keys1 by (simp add: kId_probed)
  have d1: "distinct (map kId (apiKeys ?db1))"
    unfolding ids1 by (rule Cons.prems(1))
  have d2: "distinct (map kId ks)" using Cons.prems(2) by simp
  have notk: "kId y \<noteq> kId k" if "y \<in> set ks" for y
    using that Cons.prems(2) by (auto simp: image_iff)
  have sub1: "set ks \<subseteq> set (apiKeys ?db1)"
  proof
    fix y assume y: "y \<in> set ks"
    with Cons.prems(3) have yin: "y \<in> set (apiKeys db)" by auto
    have "?h y \<in> ?h ` set (apiKeys db)" using yin by (rule imageI)
    moreover have "?h y = y" using notk [OF y] by simp
    ultimately have "y \<in> ?h ` set (apiKeys db)" by (simp only:)
    then show "y \<in> set (apiKeys ?db1)"
      unfolding keys1 by (simp only: set_map)
  qed
  have "apiKeys (checkChannelKeys envOf channel (k # ks) db)
          = apiKeys (checkChannelKeys envOf channel ks ?db1)"
    by simp
  also have "\<dots> = map (\<lambda>x. if x \<in> set ks then ?P x else x) (apiKeys ?db1)"
    by (rule Cons.IH [OF d1 d2 sub1])
  also have "\<dots> = map (\<lambda>x. if x \<in> set (k # ks) then ?P x else x) (apiKeys db)"
    unfolding keys1 map_map
  proof (rule map_cong [OF refl])
    fix x assume x: "x \<in> set (apiKeys db)"
    show "((\<lambda>x. if x \<in> set ks then ?P x else x) \<circ> ?h) x
            = (if x \<in> set (k # ks) then ?P x else x)"
    proof (cases "x = k")
      case True
      have "probed ?env channel k k \<notin> set ks"
        using notk [of "probed ?env channel k k"] by (auto simp: kId_probed)
      with True show ?thesis by simp
    next
      case False
      with only_k [OF x] have "kId x \<noteq> kId k" by simp
      with False show ?thesis by simp
    qed
  qed
  finally show ?case .
qed

lemma checkChannels_quiet:
  assumes quiet: "\<forall>c i. envMeanwhile (envOf c i) = [] \<and> envPause (envOf c i) = []"
  shows "distinct (map kId (apiKeys db)) \<Longrightarrow> distinct (map cId cs) \<Longrightarrow>
         apiKeys (checkChannels envOf cs db)
           = map (\<lambda>x. case find (\<lambda>c. cId c = channelId x) cs of
                        None \<Rightarrow> x
                      | Some c \<Rightarrow> if status x = Disabled then x
                                  else probed (envOf (cId c) (kId x)) c x x)
               (apiKeys db)"
proof (induction cs arbitrary: db)
  case Nil
  then show ?case by (simp add: map_idI)
next
  case (Cons c cs)
  let ?G = "\<lambda>cs x. case find (\<lambda>c. cId c = channelId x) cs of
                        None \<Rightarrow> x
                      | Some c \<Rightarrow> if status x = Disabled then x
                                  else probed (envOf (cId c) (kId x)) c x x"
  let ?keys = "filter (\<lambda>k. channelId k = cId c \<and> status k \<noteq> Disabled) (apiKeys db)"
  let ?h = "\<lambda>x. if channelId x = cId c \<and> status x \<noteq> Disabled
                 then probed (envOf (cId c) (kId x)) c x x else x"
  let ?db1 = "checkChannelKeys envOf c ?keys db"
  have dk: "distinct (map kId ?keys)"
    using Cons.prems(1) by (rule distinct_map_filter)
  have "apiKeys ?db1
          = map (\<lambda>x. if x \<in> set ?keys then probed (envOf (cId c) (kId x)) c x x else x)
              (apiKeys db)"
    by (rule checkChannelKeys_quiet [OF quiet Cons.prems(1) dk]) simp
  also have "\<dots> = map ?h (apiKeys db)"
    by (rule map_cong [OF refl]) simp
  finally have keys1: "apiKeys ?db1 = map ?h (apiKeys db)" .
  have ids1: "map kId (apiKeys ?db1) = map kId (apiKeys db)"
    unfolding keys1 by (simp add: kId_probed)
  have d1: "distinct (map kId (apiKeys ?db1))"
    unfolding ids1 by (rule Cons.prems(1))
  have d2: "distinct (map cId cs)" using Cons.prems(2) by simp
  have notc: "find (\<lambda>c'. cId c' = cId c) cs = None"
    using Cons.prems(2) by (auto simp: find_None_iff image_iff)
  have "apiKeys (checkChannels envOf (c # cs) db) = apiKeys (checkChannels envOf cs ?db1)"
    by (simp add: getApiKeys_def)
  also have "\<dots> = map (?G cs) (apiKeys ?db1)"
    by (rule Cons.IH [OF d1 d2])
  also have "\<dots> = map (?G (c # cs)) (apiKeys db)"
    unfolding keys1 map_map
  proof (rule map_cong [OF refl])
    fix x assume "x \<in> set (apiKeys db)"
    show "(?G cs \<circ> ?h) x = ?G (c # cs) x"
    proof (cases "channelId x = cId c")
      case True
      with notc show ?thesis by (simp add: channelId_probed)
    next
      case False
      then have "cId c \<noteq> channelId x" by simp
      with False show ?thesis by simp
    qed
  qed
  finally show ?case .
qed

text \<open>
  C6, as the code has it. A probe by the scheduler loop or by \<open>checkSingleKey\<close> works on
  the key object \<open>k\<close> that was read before the probe was awaited, and its one update
  rewrites the key stored under that id as the store is by then: \<open>status\<close> becomes the
  status of the result, \<open>lastChecked\<close> the time the checker stamped on the result,
  \<open>updatedAt\<close> the time of the write, \<open>balance\<close> the balance of the result whether it
  carries one or not (without one the stored balance is cleared), and \<open>errorCount\<close> 0 for
  an active result and otherwise one more than the \<open>errorCount\<close> of \<open>k\<close>. Every other
  field and every other key stays as the store has it. When nothing else is committed
  while the probe is awaited, the stored key is \<open>k\<close> itself and the count written is the
  previous count plus 1. \<open>checkSingleKey\<close> is such a probe of the key and channel it finds;
  and a whole job of \<open>runKeyCheck\<close> that nothing overlaps, on keys with distinct ids and
  enabled channels with distinct ids, rewrites in this way exactly the keys that are not
  disabled and belong to an enabled channel.
\<close>

theorem probe_updates_key:
  "(getApiKeyById (kId k) (commit (envMeanwhile env) db) = Some s \<longrightarrow>
      getApiKeyById (kId k) (probeAndUpdate env channel k db) = Some (probed env channel k s))
   \<and> probed env channel k s
       = s\<lparr>status := rcStatus (checkKey (envFetch env) channel k (envChecked env)),
           balance := rcBalance (checkKey (envFetch env) channel k (envChecked env)),
           lastChecked := Some (envChecked env),
           errorCount := (if rcStatus (checkKey (envFetch env) channel k (envChecked env)) = Active
                          then 0 else errorCount k + 1),
           kUpdatedAt := envUpdated env\<rparr>
   \<and> (i \<noteq> kId k \<longrightarrow>
        getApiKeyById i (probeAndUpdate env channel k db)
          = getApiKeyById i (commit (envMeanwhile env) db))
   \<and> (envMeanwhile env = [] \<longrightarrow> getApiKeyById (kId k) db = Some k \<longrightarrow>
        getApiKeyById (kId k) (probeAndUpdate env channel k db)
          = Some (k\<lparr>status := rcStatus (checkKey (envFetch env) channel k (envChecked env)),
                   balance := rcBalance (checkKey (envFetch env) channel k (envChecked env)),
                   lastChecked := Some (envChecked env),
                   errorCount := (if rcStatus (checkKey (envFetch env) channel k (envChecked env))
                                       = Active
                                  then 0 else errorCount k + 1),
                   kUpdatedAt := envUpdated env\<rparr>))
   \<and> (getApiKeyById kid db = Some k \<longrightarrow> getChannelById (channelId k) db = Some channel \<longrightarrow>
        checkSingleKey kid env db = Inr (probeAndUpdate env channel k db))
   \<and> ((\<forall>c j. envMeanwhile (envOf c j) = [] \<and> envPause (envOf c j) = []) \<longrightarrow>
        distinct (map kId (apiKeys db)) \<longrightarrow>
        distinct (map cId (filter cEnabled (channels db))) \<longrightarrow>
        apiKeys (runKeyCheck envOf db)
          = map (\<lambda>x. case find (\<lambda>c. cId c = channelId x) (filter cEnabled (channels db)) of
                        None \<Rightarrow> x
                      | Some c \<Rightarrow> if status x = Disabled then x
                                  else probed (envOf (cId c) (kId x)) c x x)
              (apiKeys db))"
proof -
  let ?result = "checkKey (envFetch env) channel k (envChecked env)"
  let ?d = "commit (envMeanwhile env) db"
  have stored: "getApiKeyById (kId k) (probeAndUpdate env channel k db)
                  = Some (probed env channel k s')"
    if "getApiKeyById (kId k) ?d = Some s'" for s'
    using getApiKeyById_update_same [OF that pId_probeUpdates, of ?result k "envUpdated env"]
    by (simp add: probeAndUpdate_def Let_def applyUpdates_probe)
  have fields: "probed env channel k s
       = s\<lparr>status := rcStatus ?result, balance := rcBalance ?result,
           lastChecked := Some (envChecked env),
           errorCount := (if rcStatus ?result = Active then 0 else errorCount k + 1),
           kUpdatedAt := envUpdated env\<rparr>"
    by (simp add: probed_def checkedAt_checkKey)
  have others: "getApiKeyById i (probeAndUpdate env channel k db) = getApiKeyById i ?d"
    if "i \<noteq> kId k"
    using getApiKeyById_update_other [OF that pId_probeUpdates]
    by (simp add: probeAndUpdate_def Let_def)
  have fresh: "getApiKeyById (kId k) (probeAndUpdate env channel k db)
          = Some (k\<lparr>status := rcStatus ?result, balance := rcBalance ?result,
                   lastChecked := Some (envChecked env),
                   errorCount := (if rcStatus ?result = Active then 0 else errorCount k + 1),
                   kUpdatedAt := envUpdated env\<rparr>)"
    if "envMeanwhile env = []" "getApiKeyById (kId k) db = Some k"
    using stored [of k] that by (simp add: probed_def checkedAt_checkKey)
  have single: "checkSingleKey kid env db = Inr (probeAndUpdate env channel k db)"
    if "getApiKeyById kid db = Some k" "getChannelById (channelId k) db = Some channel"
    using that
    by (simp add: checkSingleKey_def probeAndUpdate_def getApiKeys_def getApiKeyById_def Let_def)
  have job: "apiKeys (runKeyCheck envOf db)
          = map (\<lambda>x. case find (\<lambda>c. cId c = channelId x) (filter cEnabled (channels db)) of
                        None \<Rightarrow> x
                      | Some c \<Rightarrow> if status x = Disabled then x
                                  else probed (envOf (cId c) (kId x)) c x x)
              (apiKeys db)"
    if "\<forall>c j. envMeanwhile (envOf c j) = [] \<and> envPause (envOf c j) = []"
      "distinct (map kId (apiKeys db))" "distinct (map cId (filter cEnabled (channels db)))"
    unfolding runKeyCheck_def getChannels_def
    by (rule checkChannels_quiet [OF that])
  from stored fields others fresh single job show ?thesis
    by (intro conjI impI) blast+
qed

lemma ex_checkKey_401:
  "checkKey (upstreamAnswers (Resolved \<lparr>hStatus = 401, hText = Inr ''denied'',
                                          hTotalAvailable = Inl OtherValue\<rparr>))
     (exChannel ''chX'' OpenAI Balance RoundRobin) k 5000
   = \<lparr>rcKeyId = kId k, rcStatus = Invalid, rcBalance = None,
      rcError = Some ''HTTP 401: denied'', checkedAt = 5000\<rparr>"
  by (simp add: checkKey_def checkOpenAI_def upstreamAnswers_def exChannel_def ok_def Let_def
      handleErrorResponse_def decimal.simps digit_def)

text \<open>
  Three runs: a probe that nothing overlaps; a failed probe of a key read with the count
  2 while another handler raises the stored count to 5, which writes 3; and a job over a
  disabled key, an active key and a key of an unknown channel.
\<close>

theorem probe_updates_key_witness:
  "getApiKeyById ''k1''
     (probeAndUpdate
        (exProbeEnv (Resolved \<lparr>hStatus = 200, hText = Inr ''{}'',
                                hTotalAvailable = Inr (Some 12)\<rparr>) [])
        (exChannel ''chX'' OpenAI Balance RoundRobin) (exKey ''k1'' ''chX'' Active 50 50 2)
        (exDb [exChannel ''chX'' OpenAI Balance RoundRobin]
           [exKey ''k0'' ''chX'' Active 50 50 0, exKey ''k1'' ''chX'' Active 50 50 2] []))
     = Some ((exKey ''k1'' ''chX'' Active 50 50 0)\<lparr>balance := Some 12, lastChecked := Some 5000,
                                                    kUpdatedAt := 5001\<rparr>)
   \<and> getApiKeyById ''k1''
     (probeAndUpdate
        (exProbeEnv (Resolved \<lparr>hStatus = 401, hText = Inr ''denied'',
                                hTotalAvailable = Inl OtherValue\<rparr>)
           [OpUpdateKey ''k1'' (noUpdates\<lparr>pErrorCount := Some 5\<rparr>) 4990])
        (exChannel ''chX'' OpenAI Balance RoundRobin) (exKey ''k1'' ''chX'' Active 50 50 2)
        (exDb [exChannel ''chX'' OpenAI Balance RoundRobin]
           [exKey ''k0'' ''chX'' Active 50 50 0, exKey ''k1'' ''chX'' Active 50 50 2] []))
     = Some ((exKey ''k1'' ''chX'' Invalid 50 50 3)\<lparr>lastChecked := Some 5000,
                                                     kUpdatedAt := 5001\<rparr>)
   \<and> apiKeys (runKeyCheck
        (exEnvOf (Resolved \<lparr>hStatus = 401, hText = Inr ''denied'',
                             hTotalAvailable = Inl OtherValue\<rparr>))
        (exDb [exChannel ''chX'' OpenAI Balance RoundRobin]
           [exKey ''k0'' ''chX'' Disabled 50 50 0, exKey ''k1'' ''chX'' Active 50 50 2,
            exKey ''k2'' ''chY'' Active 50 50 0] []))
     = [exKey ''k0'' ''chX'' Disabled 50 50 0,
        (exKey ''k1'' ''chX'' Invalid 50 50 3)\<lparr>lastChecked := Some 5000, kUpdatedAt := 5001\<rparr>,
        exKey ''k2'' ''chY'' Active 50 50 0]"
proof -
  let ?ch = "exChannel ''chX'' OpenAI Balance RoundRobin"
  let ?k = "exKey ''k1'' ''chX'' Active 50 50 2"
  let ?db = "exDb [?ch] [exKey ''k0'' ''chX'' Active 50 50 0, ?k] []"
  let ?ok = "Resolved \<lparr>hStatus = 200, hText = Inr ''{}'', hTotalAvailable = Inr (Some 12)\<rparr>"
  let ?no = "Resolved \<lparr>hStatus = 401, hText = Inr ''denied'', hTotalAvailable = Inl OtherValue\<rparr>"
  let ?late = "[OpUpdateKey ''k1'' (noUpdates\<lparr>pErrorCount := Some 5\<rparr>) 4990]"
  let ?s = "(exKey ''k1'' ''chX'' Active 50 50 5)\<lparr>kUpdatedAt := 4990\<rparr>"
  let ?db3 = "exDb [?ch] [exKey ''k0'' ''chX'' Disabled 50 50 0, ?k,
                          exKey ''k2'' ''chY'' Active 50 50 0] []"
  have id: "kId ?k = ''k1''" by (simp add: exKey_def)
  \<comment> \<open>a probe that nothing overlaps\<close>
  have f1: "envMeanwhile (exProbeEnv ?ok []) = []" by (simp add: exProbeEnv_def)
  have f2: "getApiKeyById (kId ?k) ?db = Some ?k"
    by (simp add: getApiKeyById_def exDb_def exKey_def)
  note fresh = probe_updates_key [where k="?k" and env="exProbeEnv ?ok []" and db="?db"
      and channel="?ch", THEN conjunct2, THEN conjunct2, THEN conjunct2, THEN conjunct1,
      rule_format, OF f1 f2]
  have r1: "checkKey (envFetch (exProbeEnv ?ok [])) ?ch ?k (envChecked (exProbeEnv ?ok []))
              = activeResult ''k1'' (Some 12) 5000"
    by (simp add: checkKey_def checkOpenAI_def upstreamAnswers_def exChannel_def exKey_def
        exProbeEnv_def ok_def Let_def)
  have 1: "getApiKeyById ''k1'' (probeAndUpdate (exProbeEnv ?ok []) ?ch ?k ?db)
     = Some ((exKey ''k1'' ''chX'' Active 50 50 0)\<lparr>balance := Some 12, lastChecked := Some 5000,
                                                    kUpdatedAt := 5001\<rparr>)"
    using fresh unfolding r1 id by (simp add: exKey_def activeResult_def exProbeEnv_def)
  \<comment> \<open>a probe during which another handler raised the stored count to 5\<close>
  have g1: "getApiKeyById (kId ?k) (commit (envMeanwhile (exProbeEnv ?no ?late)) ?db) = Some ?s"
    by (simp add: getApiKeyById_def exDb_def exKey_def exProbeEnv_def updateApiKey_def
        applyUpdates_def noUpdates_def spread_def Let_def)
  note stale = probe_updates_key [where k="?k" and env="exProbeEnv ?no ?late" and db="?db"
      and channel="?ch" and s="?s", THEN conjunct1, rule_format, OF g1]
  have r2: "probed (exProbeEnv ?no ?late) ?ch ?k ?s
              = (exKey ''k1'' ''chX'' Invalid 50 50 3)\<lparr>lastChecked := Some 5000,
                                                       kUpdatedAt := 5001\<rparr>"
    by (simp add: probed_def exProbeEnv_def ex_checkKey_401) (simp add: exKey_def)
  have 2: "getApiKeyById ''k1'' (probeAndUpdate (exProbeEnv ?no ?late) ?ch ?k ?db)
     = Some ((exKey ''k1'' ''chX'' Invalid 50 50 3)\<lparr>lastChecked := Some 5000,
                                                     kUpdatedAt := 5001\<rparr>)"
    using stale unfolding r2 id .
  \<comment> \<open>a whole job\<close>
  have j1: "\<forall>c j. envMeanwhile (exEnvOf ?no c j) = [] \<and> envPause (exEnvOf ?no c j) = []"
    by (simp add: exEnvOf_def exProbeEnv_def)
  have j2: "distinct (map kId (apiKeys ?db3))" by (simp add: exDb_def exKey_def)
  have j3: "distinct (map cId (filter cEnabled (channels ?db3)))"
    by (simp add: exDb_def exChannel_def)
  note job = probe_updates_key [where envOf="exEnvOf ?no" and db="?db3",
      THEN conjunct2, THEN conjunct2, THEN conjunct2, THEN conjunct2, THEN conjunct2,
      THEN mp, OF j1, THEN mp, OF j2, THEN mp, OF j3]
  have r3: "probed (exEnvOf ?no ''chX'' ''k1'') ?ch ?k ?k
              = (exKey ''k1'' ''chX'' Invalid 50 50 3)\<lparr>lastChecked := Some 5000,
                                                       kUpdatedAt := 5001\<rparr>"
    by (simp add: probed_def exEnvOf_def exProbeEnv_def ex_checkKey_401) (simp add: exKey_def)
  have ids: "cId ?ch = ''chX''" "cEnabled ?ch" by (simp_all add: exChannel_def)
  have 3: "apiKeys (runKeyCheck (exEnvOf ?no) ?db3)
     = [exKey ''k0'' ''chX'' Disabled 50 50 0,
        (exKey ''k1'' ''chX'' Invalid 50 50 3)\<lparr>lastChecked := Some 5000, kUpdatedAt := 5001\<rparr>,
        exKey ''k2'' ''chY'' Active 50 50 0]"
    unfolding job using r3 ids
    by (simp add: exDb_def) (simp add: exKey_def)
  from 1 2 3 show ?thesis by (intro conjI)
qed

text \<open>
  A key with the stored balance 25 whose balance probe is answered 429: the result
  carries no balance, and the stored balance is gone after the update.
\<close>

theorem probe_clears_balance_counterexample:
  "balance ((exKey ''k1'' ''chX'' Active 50 50 0)\<lparr>balance := Some 25\<rparr>) = Some 25
   \<and> rcBalance (checkKey (upstreamAnswers (Resolved \<lparr>hStatus = 429, hText = Inr ''quota'',
                                                     hTotalAvailable = Inl OtherValue\<rparr>))
        (exChannel ''chX'' OpenAI Balance RoundRobin)
        ((exKey ''k1'' ''chX'' Active 50 50 0)\<lparr>balance := Some 25\<rparr>) 5000) = None
   \<and> map balance (apiKeys (probeAndUpdate
        (exProbeEnv (Resolved \<lparr>hStatus = 429, hText = Inr ''quota'',
                                hTotalAvailable = Inl OtherValue\<rparr>) [])
        (exChannel ''chX'' OpenAI Balance RoundRobin)
        ((exKey ''k1'' ''chX'' Active 50 50 0)\<lparr>balance := Some 25\<rparr>)
        (exDb [exChannel ''chX'' OpenAI Balance RoundRobin]
           [(exKey ''k1'' ''chX'' Active 50 50 0)\<lparr>balance := Some 25\<rparr>] []))) = [None]"
  by (simp add: probeAndUpdate_def updateApiKey_def checkKey_def checkOpenAI_def
      upstreamAnswers_def exChannel_def exKey_def exDb_def exProbeEnv_def ok_def Let_def
      handleErrorResponse_def applyUpdates_def probeUpdates_def noUpdates_def spread_def)

section \<open>Relay bookkeeping\<close>








text \<open>
  The reply of a stream that breaks: a 500 as long as nothing was written, and the
  \<^verbatim>\<open>ERR_HTTP_HEADERS_SENT\<close> of the attempted 500 once a chunk went out.
\<close>

lemma relay_broken_stream_reply:
  "fst (relay (Answered 200 (Broken e True)) clock others logId failId tokenInfo channel k m
          True db) = HeadersSent
   \<and> fst (relay (Answered 200 (Broken (ErrorObject msg) False)) clock others logId failId
            tokenInfo channel k m True db) = Failure 500 (ErrorBody msg ''server_error'')"
  by (simp add: relay_def relayCaught_def Let_def ok_def)

end
